theory Spec2Isabelle
  imports Main "HOL-Library.Word" "HOL-Library.Multiset"
begin

section \<open>Data model of the tracer loop\<close>

type_synonym byte = "8 word"
type_synonym bytes = "byte list"
type_synonym u64 = "64 word"
type_synonym chan = nat
type_synonym duration = int
type_synonym time = int

subsection \<open>Blocks and the bounded ring buffer\<close>

datatype blockTag = transactionBlockTag | spanBlockTag | errorBlockTag | metricsBlockTag

record block =
  Tag :: blockTag
  Data :: bytes

record ringbuffer =
  capacity :: nat
  blocks :: "block list"

text \<open>Modelled from the spec: package \<open>ringbuffer\<close> is not among the source files. Section 4.1
  describes a fixed-capacity store of blocks, drained oldest first, where \<open>Len()\<close> reports the
  occupied bytes, \<open>WriteBlockTo\<close> removes the oldest block or reports "empty", and an insertion
  evicts the oldest blocks until the new one fits, reporting the tag of every evicted block.\<close>

definition blocksLen :: "block list \<Rightarrow> nat" where
  "blocksLen bs = sum_list (map (\<lambda>b. length (Data b)) bs)"

definition rb_New :: "nat \<Rightarrow> ringbuffer" where
  "rb_New n = \<lparr>capacity = n, blocks = []\<rparr>"

definition rb_Len :: "ringbuffer \<Rightarrow> nat" where
  "rb_Len b = blocksLen (blocks b)"

definition rb_WriteBlockTo :: "ringbuffer \<Rightarrow> (block \<times> ringbuffer) option" where
  "rb_WriteBlockTo b =
     (case blocks b of [] \<Rightarrow> None | x # xs \<Rightarrow> Some (x, b\<lparr>blocks := xs\<rparr>))"

fun rb_evict :: "nat \<Rightarrow> block list \<Rightarrow> block list \<times> blockTag list" where
  "rb_evict room [] = ([], [])"
| "rb_evict room (x # xs) =
     (if blocksLen (x # xs) \<le> room then (x # xs, [])
      else (case rb_evict room xs of (ys, ev) \<Rightarrow> (ys, Tag x # ev)))"

definition rb_WriteBlock :: "bytes \<Rightarrow> blockTag \<Rightarrow> ringbuffer \<Rightarrow> ringbuffer \<times> blockTag list" where
  "rb_WriteBlock d t b =
     (if capacity b < length d then (b, [])
      else (case rb_evict (capacity b - length d) (blocks b) of
              (ys, ev) \<Rightarrow> (b\<lparr>blocks := ys @ [\<lparr>Tag = t, Data = d\<rparr>]\<rparr>, ev)))"

subsection \<open>Statistics\<close>

record TracerStats =
  Errors_SendStream :: u64
  ErrorsSent :: u64
  ErrorsDropped :: u64
  TransactionsSent :: u64
  TransactionsDropped :: u64
  SpansSent :: u64
  SpansDropped :: u64

definition zeroStats :: TracerStats where
  "zeroStats = \<lparr>Errors_SendStream = 0, ErrorsSent = 0, ErrorsDropped = 0,
     TransactionsSent = 0, TransactionsDropped = 0, SpansSent = 0, SpansDropped = 0\<rparr>"

text \<open>Modelled from the spec: the methods \<open>isZero\<close> and \<open>accumulate\<close> of \<open>TracerStats\<close> are not
  among the source files. Section 3 calls the statistics "monotonically accumulating counters";
  \<open>accumulate\<close> adds a local accumulator to the shared one, counter by counter (in the 64-bit
  unsigned arithmetic of the counters), and \<open>isZero\<close> holds when every counter is zero.\<close>

definition isZero :: "TracerStats \<Rightarrow> bool" where
  "isZero s \<longleftrightarrow> s = zeroStats"

definition accumulate :: "TracerStats \<Rightarrow> TracerStats \<Rightarrow> TracerStats" where
  "accumulate s rhs =
     \<lparr>Errors_SendStream = Errors_SendStream s + Errors_SendStream rhs,
      ErrorsSent = ErrorsSent s + ErrorsSent rhs,
      ErrorsDropped = ErrorsDropped s + ErrorsDropped rhs,
      TransactionsSent = TransactionsSent s + TransactionsSent rhs,
      TransactionsDropped = TransactionsDropped s + TransactionsDropped rhs,
      SpansSent = SpansSent s + SpansSent rhs,
      SpansDropped = SpansDropped s + SpansDropped rhs\<rparr>"

text \<open>The \<open>buffer.Evicted\<close> callback installed by \<open>Tracer.loop\<close>.\<close>

fun Evicted :: "TracerStats \<Rightarrow> blockTag \<Rightarrow> TracerStats" where
  "Evicted st errorBlockTag = st\<lparr>ErrorsDropped := ErrorsDropped st + 1\<rparr>"
| "Evicted st spanBlockTag = st\<lparr>SpansDropped := SpansDropped st + 1\<rparr>"
| "Evicted st transactionBlockTag = st\<lparr>TransactionsDropped := TransactionsDropped st + 1\<rparr>"
| "Evicted st metricsBlockTag = st"

subsection \<open>Configuration, events, effects\<close>

record tracerConfig =
  requestSize :: int
  requestDuration :: duration
  metricsInterval :: duration
  logger :: "nat option"
  metricsGatherers :: "nat list"
  contextSetter :: "nat option"
  preContext :: int
  postContext :: int
  sanitizedFieldNames :: "string list"
  disabledMetrics :: "string list"

definition zeroConfig :: tracerConfig where
  "zeroConfig = \<lparr>requestSize = 0, requestDuration = 0, metricsInterval = 0, logger = None,
     metricsGatherers = [], contextSetter = None, preContext = 0, postContext = 0,
     sanitizedFieldNames = [], disabledMetrics = []\<rparr>"

text \<open>A finished record as it reaches the loop; its serialisation is an opaque byte string.\<close>

datatype tracerEvent = transactionEvent bytes | spanEvent bytes | errorEvent bytes

text \<open>The error of a send: a \<open>*transport.HTTPError\<close> with its status code, or any other error.\<close>

datatype sendError = HTTPError int | OtherError

datatype logLevel = Debugf | Errorf

datatype logMessage =
    RequestFailed sendError duration
  | SentRequest u64 u64 u64 u64
  | GatheringMetrics

text \<open>What one iteration does to the world outside the loop's own variables.\<close>

datatype effect =
    CancelContext
  | CloseRead
  | SendStreamRequest duration
  | RequestTimerReset duration
  | RequestTimerStop
  | MetricsTimerReset duration
  | MetricsTimerStop
  | AckFlushed chan
  | AckSentMetrics chan
  | GatherMetrics "nat list"
  | Log logLevel logMessage
  | Respond nat bool

text \<open>The case of the \<open>select\<close> statement that is serviced, with the data it receives.
  \<open>configCommand\<close> and \<open>gatheredMetrics\<close> carry the clock reading of \<open>time.Now()\<close>;
  \<open>gatheredMetrics\<close> carries the entries the gatherers left in \<open>metrics\<close>; \<open>forceFlush\<close> carries
  the events queued in \<open>t.events\<close> at that moment; \<open>iochanReq\<close> the size of the reader's buffer.\<close>

datatype selectCase =
    closing
  | configCommand "tracerConfig \<Rightarrow> tracerConfig" time
  | event tracerEvent
  | requestTimerC
  | metricsTimerC
  | forceSendMetrics chan
  | gatheredMetrics "bytes list" time
  | forceFlush chan "tracerEvent list"
  | iochanReq nat
  | requestResult "sendError option"

text \<open>The compressor is the standard library's; the loop only writes to it, flushes it, closes
  it and resets it, and every byte it emits is appended to \<open>requestBuf\<close>.\<close>

record 'z zlib =
  zinit :: 'z
  zwrite :: "'z \<Rightarrow> bytes \<Rightarrow> 'z \<times> bytes"
  zflush :: "'z \<Rightarrow> 'z \<times> bytes"
  zclose :: "'z \<Rightarrow> 'z \<times> bytes"

text \<open>What the loop takes from outside \<open>Tracer.loop\<close>: the compressor, the encoded request
  metadata, and \<open>nextGracePeriod\<close>.\<close>

record 'z env =
  zl :: "'z zlib"
  jsonRequestMetadata :: bytes
  nextGracePeriod :: "duration \<Rightarrow> duration"

record 'z loop_state =
  req_Buf :: "nat option"
  requestBuf :: bytes
  metadata :: "bytes option"
  gracePeriod :: duration
  flushed :: "chan option"
  flushedFull :: bool
  requestBufTransactions :: u64
  requestBufSpans :: u64
  requestBufErrors :: u64
  requestBufMetricsets :: u64
  zlibWriter :: 'z
  zlibFlushed :: bool
  zlibClosed :: bool
  requestBytesRead :: int
  requestActive :: bool
  closeRequest :: bool
  flushRequest :: bool
  requestTimerActive :: bool
  stats :: TracerStats
  sentMetrics :: "chan option"
  gatheringMetrics :: bool
  metricsTimerStart :: "time option"
  metricsBuffer :: ringbuffer
  cfg :: tracerConfig
  buffer :: ringbuffer
  metrics_disabled :: "string list"
  gatherMetrics :: bool
  t_stats :: TracerStats
  effects :: "effect list"


definition emit :: "effect \<Rightarrow> 'z loop_state \<Rightarrow> 'z loop_state" where
  "emit e s = s\<lparr>effects := effects s @ [e]\<rparr>"

text \<open>The values of the variables when \<open>Tracer.loop\<close> reaches its \<open>for\<close> statement.\<close>

definition loop_init :: "'z env \<Rightarrow> nat \<Rightarrow> nat \<Rightarrow> TracerStats \<Rightarrow> 'z loop_state" where
  "loop_init E bufferSize metricsBufferSize ts =
     \<lparr>req_Buf = None, requestBuf = [], metadata = None, gracePeriod = -1, flushed = None,
      flushedFull = False,
      requestBufTransactions = 0, requestBufSpans = 0, requestBufErrors = 0,
      requestBufMetricsets = 0, zlibWriter = zinit (zl E), zlibFlushed = True,
      zlibClosed = False, requestBytesRead = 0, requestActive = False, closeRequest = False,
      flushRequest = False, requestTimerActive = False, stats = zeroStats, sentMetrics = None,
      gatheringMetrics = False, metricsTimerStart = None,
      metricsBuffer = rb_New metricsBufferSize, cfg = zeroConfig, buffer = rb_New bufferSize,
      metrics_disabled = [], gatherMetrics = False, t_stats = ts, effects = []\<rparr>"

section \<open>The model writer\<close>

text \<open>Modelled from the spec: the \<open>modelWriter\<close> is not among the source files. By section 4.2 it
  serialises a finished record into a tagged block and inserts it into the trace buffer
  (transactions, spans, errors) or the metrics buffer (metrics snapshots); evictions from the
  trace buffer reach the \<open>Evicted\<close> callback that \<open>Tracer.loop\<close> installs.\<close>

definition writeBlock :: "blockTag \<Rightarrow> bytes \<Rightarrow> 'z loop_state \<Rightarrow> 'z loop_state" where
  "writeBlock t d s =
     (case rb_WriteBlock d t (buffer s) of
        (b, ev) \<Rightarrow> s\<lparr>buffer := b, stats := foldl Evicted (stats s) ev\<rparr>)"

fun writeEvent :: "tracerEvent \<Rightarrow> 'z loop_state \<Rightarrow> 'z loop_state" where
  "writeEvent (transactionEvent d) s = writeBlock transactionBlockTag d s"
| "writeEvent (spanEvent d) s = writeBlock spanBlockTag d s"
| "writeEvent (errorEvent d) s = writeBlock errorBlockTag d s"

fun writeMetrics :: "bytes list \<Rightarrow> 'z loop_state \<Rightarrow> 'z loop_state" where
  "writeMetrics [] s = s"
| "writeMetrics (d # ds) s =
     writeMetrics ds (s\<lparr>metricsBuffer := fst (rb_WriteBlock d metricsBlockTag (metricsBuffer s))\<rparr>)"

section \<open>The cases of the select statement\<close>

datatype 'a flow = Next 'a | Continue 'a | Return 'a | Blocked 'a

definition caseClosing :: "'z loop_state \<Rightarrow> 'z loop_state" where
  "caseClosing s = emit CloseRead (emit CancelContext s)"

definition caseConfigCommand ::
  "(tracerConfig \<Rightarrow> tracerConfig) \<Rightarrow> time \<Rightarrow> 'z loop_state \<Rightarrow> 'z loop_state" where
  "caseConfigCommand cmd now s =
     (let oldMetricsInterval = metricsInterval (cfg s);
          s1 = s\<lparr>cfg := cmd (cfg s)\<rparr>;
          mi = metricsInterval (cfg s1)
      in if \<not> gatheringMetrics s1 \<and> mi \<noteq> oldMetricsInterval then
           (case metricsTimerStart s1 of
              None \<Rightarrow>
                if mi > 0 then (emit (MetricsTimerReset mi) s1)\<lparr>metricsTimerStart := Some now\<rparr>
                else s1
            | Some start \<Rightarrow>
                if mi \<le> 0 then emit MetricsTimerStop (s1\<lparr>metricsTimerStart := None\<rparr>)
                else (let alreadyPassed = now - start
                      in if alreadyPassed \<ge> mi then emit (MetricsTimerReset 0) s1
                         else emit (MetricsTimerReset (mi - alreadyPassed)) s1))
         else s1)"

fun caseEvent :: "tracerEvent \<Rightarrow> 'z loop_state \<Rightarrow> 'z loop_state" where
  "caseEvent (errorEvent d) s = (writeEvent (errorEvent d) s)\<lparr>flushRequest := True\<rparr>"
| "caseEvent e s = writeEvent e s"

definition caseRequestTimer :: "'z loop_state \<Rightarrow> 'z loop_state" where
  "caseRequestTimer s = s\<lparr>requestTimerActive := False, closeRequest := True\<rparr>"

definition caseMetricsTimer :: "'z loop_state \<Rightarrow> 'z loop_state" where
  "caseMetricsTimer s = s\<lparr>metricsTimerStart := None, gatherMetrics := \<not> gatheringMetrics s\<rparr>"

definition caseForceSendMetrics :: "chan \<Rightarrow> 'z loop_state \<Rightarrow> 'z loop_state" where
  "caseForceSendMetrics c s =
     (let s1 = s\<lparr>sentMetrics := Some c\<rparr>;
          s2 = (if metricsTimerStart s1 \<noteq> None
                then emit MetricsTimerStop (s1\<lparr>metricsTimerStart := None\<rparr>) else s1)
      in s2\<lparr>gatherMetrics := \<not> gatheringMetrics s2\<rparr>)"

definition caseGatheredMetrics :: "bytes list \<Rightarrow> time \<Rightarrow> 'z loop_state \<Rightarrow> 'z loop_state" where
  "caseGatheredMetrics ms now s =
     (let s1 = (writeMetrics ms s)\<lparr>gatheringMetrics := False, flushRequest := True\<rparr>
      in if metricsInterval (cfg s1) > 0
         then emit (MetricsTimerReset (metricsInterval (cfg s1))) (s1\<lparr>metricsTimerStart := Some now\<rparr>)
         else s1)"

text \<open>The forced flush first drains the events queued in the channel (an error among them does
  not set \<open>flushRequest\<close> here), then answers at once if nothing is buffered and no request is
  active. The channel received is the one \<open>Flush\<close> has just made, with one free slot;
  \<open>flushedFull\<close> records whether the slot of the channel held in \<open>flushed\<close> is taken. The
  immediate answer takes the slot and leaves \<open>flushed\<close> set (lines 669 to 671).\<close>

definition caseForceFlush :: "chan \<Rightarrow> tracerEvent list \<Rightarrow> 'z loop_state \<Rightarrow> 'z loop_state flow" where
  "caseForceFlush c evs s =
     (let s1 = fold writeEvent evs (s\<lparr>flushed := Some c, flushedFull := False\<rparr>)
      in if \<not> requestActive s1 \<and> rb_Len (buffer s1) = 0 \<and> rb_Len (metricsBuffer s1) = 0
         then Continue (emit (AckFlushed c) (s1\<lparr>flushedFull := True\<rparr>))
         else Next (s1\<lparr>closeRequest := True\<rparr>))"

definition caseIochanReq :: "nat \<Rightarrow> 'z loop_state \<Rightarrow> 'z loop_state" where
  "caseIochanReq n s = s\<lparr>req_Buf := Some n\<rparr>"

definition resultOutcome :: "'z env \<Rightarrow> sendError option \<Rightarrow> 'z loop_state \<Rightarrow> 'z loop_state" where
  "resultOutcome E r s =
     (case r of
        Some err \<Rightarrow>
          (let s1 = s\<lparr>stats := (stats s)\<lparr>Errors_SendStream := Errors_SendStream (stats s) + 1\<rparr>,
                      gracePeriod := nextGracePeriod E (gracePeriod s)\<rparr>
           in if logger (cfg s1) \<noteq> None
              then emit (Log (case err of HTTPError code \<Rightarrow> if code = 404 then Errorf else Debugf
                                        | OtherError \<Rightarrow> Debugf)
                             (RequestFailed err (gracePeriod s1))) s1
              else s1)
      | None \<Rightarrow>
          (let s1 = s\<lparr>gracePeriod := -1,
                      stats := (stats s)\<lparr>
                        TransactionsSent := TransactionsSent (stats s) + requestBufTransactions s,
                        SpansSent := SpansSent (stats s) + requestBufSpans s,
                        ErrorsSent := ErrorsSent (stats s) + requestBufErrors s\<rparr>\<rparr>
           in if logger (cfg s1) \<noteq> None
              then emit (Log Debugf (SentRequest (requestBufTransactions s1) (requestBufSpans s1)
                                       (requestBufErrors s1) (requestBufMetricsets s1))) s1
              else s1))"

definition accumulateStats :: "'z loop_state \<Rightarrow> 'z loop_state" where
  "accumulateStats s =
     (if \<not> isZero (stats s)
      then s\<lparr>t_stats := accumulate (t_stats s) (stats s), stats := zeroStats\<rparr>
      else s)"

definition ackSentMetrics :: "'z loop_state \<Rightarrow> 'z loop_state" where
  "ackSentMetrics s =
     (case sentMetrics s of
        Some c \<Rightarrow> if requestBufMetricsets s > 0
                  then emit (AckSentMetrics c) (s\<lparr>sentMetrics := None\<rparr>) else s
      | None \<Rightarrow> s)"

text \<open>The send \<open>flushed <- struct{}{}\<close> of line 720. It does not return while the slot of the
  channel is taken, which is the case when \<open>flushed\<close> still holds the channel of an immediate
  answer that the caller of \<open>Flush\<close> has not received (the caller may have left through
  \<open>abort\<close>): the result is then \<open>None\<close>.\<close>

definition ackFlushed :: "'z loop_state \<Rightarrow> 'z loop_state option" where
  "ackFlushed s =
     (case flushed s of
        Some c \<Rightarrow> if flushedFull s then None
                  else Some (emit (AckFlushed c) (s\<lparr>flushed := None\<rparr>))
      | None \<Rightarrow> Some s)"

definition resetRequest :: "'z loop_state \<Rightarrow> 'z loop_state" where
  "resetRequest s =
     (let s1 = emit CloseRead (s\<lparr>req_Buf := None\<rparr>);
          s2 = s1\<lparr>flushRequest := False, closeRequest := False, requestActive := False,
                  requestBytesRead := 0, requestBuf := [], requestBufTransactions := 0,
                  requestBufSpans := 0, requestBufErrors := 0, requestBufMetricsets := 0\<rparr>
      in if requestTimerActive s2
         then emit RequestTimerStop (s2\<lparr>requestTimerActive := False\<rparr>)
         else s2)"

definition caseRequestResult :: "'z env \<Rightarrow> sendError option \<Rightarrow> 'z loop_state \<Rightarrow> 'z loop_state flow" where
  "caseRequestResult E r s =
     (let s1 = ackSentMetrics (accumulateStats (resultOutcome E r s))
      in case ackFlushed s1 of
           None \<Rightarrow> Blocked s1
         | Some s2 \<Rightarrow> Next (resetRequest s2))"

text \<open>The send of line 720 cannot proceed.\<close>

definition flushBlocked :: "'z loop_state \<Rightarrow> bool" where
  "flushBlocked s \<longleftrightarrow> flushed s \<noteq> None \<and> flushedFull s"

text \<open>The state in which the loop stays when that send cannot proceed, and the state at the end
  of the case when it can.\<close>

definition resultBlocked :: "'z env \<Rightarrow> sendError option \<Rightarrow> 'z loop_state \<Rightarrow> 'z loop_state" where
  "resultBlocked E r s = ackSentMetrics (accumulateStats (resultOutcome E r s))"

definition flushAcked :: "'z loop_state \<Rightarrow> 'z loop_state" where
  "flushAcked s =
     (case flushed s of
        Some c \<Rightarrow> emit (AckFlushed c) (s\<lparr>flushed := None\<rparr>)
      | None \<Rightarrow> s)"

definition resultDone :: "'z env \<Rightarrow> sendError option \<Rightarrow> 'z loop_state \<Rightarrow> 'z loop_state" where
  "resultDone E r s = resetRequest (flushAcked (resultBlocked E r s))"

fun selectBody :: "'z env \<Rightarrow> selectCase \<Rightarrow> 'z loop_state \<Rightarrow> 'z loop_state flow" where
  "selectBody E closing s = Return (caseClosing s)"
| "selectBody E (configCommand cmd now) s = Continue (caseConfigCommand cmd now s)"
| "selectBody E (event e) s = Next (caseEvent e s)"
| "selectBody E requestTimerC s = Next (caseRequestTimer s)"
| "selectBody E metricsTimerC s = Next (caseMetricsTimer s)"
| "selectBody E (forceSendMetrics c) s = Next (caseForceSendMetrics c s)"
| "selectBody E (gatheredMetrics ms now) s = Next (caseGatheredMetrics ms now s)"
| "selectBody E (forceFlush c evs) s = caseForceFlush c evs s"
| "selectBody E (iochanReq n) s = Next (caseIochanReq n s)"
| "selectBody E (requestResult r) s = caseRequestResult E r s"


section \<open>The rest of the loop body\<close>

definition startGather :: "'z loop_state \<Rightarrow> 'z loop_state" where
  "startGather s =
     (if gatherMetrics s then
        (let s1 = emit (GatherMetrics (metricsGatherers (cfg s)))
                    (s\<lparr>gatheringMetrics := True, metrics_disabled := disabledMetrics (cfg s)\<rparr>)
         in if logger (cfg s1) \<noteq> None then emit (Log Debugf GatheringMetrics) s1 else s1)
      else s)"

definition zlibWrite :: "'z env \<Rightarrow> bytes \<Rightarrow> 'z loop_state \<Rightarrow> 'z loop_state" where
  "zlibWrite E d s =
     (case zwrite (zl E) (zlibWriter s) d of
        (z, out) \<Rightarrow> s\<lparr>zlibWriter := z, requestBuf := requestBuf s @ out\<rparr>)"

definition openRequest :: "'z env \<Rightarrow> 'z loop_state \<Rightarrow> 'z loop_state" where
  "openRequest E s =
     (let s1 = emit (SendStreamRequest (gracePeriod s)) s;
          md = (case metadata s1 of None \<Rightarrow> jsonRequestMetadata E | Some m \<Rightarrow> m);
          s2 = zlibWrite E md (s1\<lparr>metadata := Some md, zlibWriter := zinit (zl E)\<rparr>);
          s3 = s2\<lparr>zlibFlushed := False, zlibClosed := False, requestActive := True\<rparr>
      in (emit (RequestTimerReset (requestDuration (cfg s3))) s3)\<lparr>requestTimerActive := True\<rparr>)"

definition newline :: bytes where
  "newline = [10]"

definition pullMetrics :: "'z env \<Rightarrow> block \<Rightarrow> ringbuffer \<Rightarrow> 'z loop_state \<Rightarrow> 'z loop_state" where
  "pullMetrics E b mb s =
     (let s1 = zlibWrite E (Data b) (s\<lparr>metricsBuffer := mb\<rparr>);
          s2 = s1\<lparr>requestBufMetricsets := requestBufMetricsets s1 + 1\<rparr>;
          s3 = (zlibWrite E newline s2)\<lparr>zlibFlushed := False\<rparr>
      in if sentMetrics s3 \<noteq> None then s3\<lparr>closeRequest := True\<rparr> else s3)"

fun countTag :: "blockTag \<Rightarrow> 'z loop_state \<Rightarrow> 'z loop_state" where
  "countTag transactionBlockTag s = s\<lparr>requestBufTransactions := requestBufTransactions s + 1\<rparr>"
| "countTag spanBlockTag s = s\<lparr>requestBufSpans := requestBufSpans s + 1\<rparr>"
| "countTag errorBlockTag s = s\<lparr>requestBufErrors := requestBufErrors s + 1\<rparr>"
| "countTag metricsBlockTag s = s"

definition pullTrace :: "'z env \<Rightarrow> block \<Rightarrow> ringbuffer \<Rightarrow> 'z loop_state \<Rightarrow> 'z loop_state" where
  "pullTrace E b tb s =
     (let s1 = zlibWrite E (Data b) (s\<lparr>buffer := tb\<rparr>);
          s2 = countTag (Tag b) s1
      in (zlibWrite E newline s2)\<lparr>zlibFlushed := False\<rparr>)"

definition requestLen :: "'z loop_state \<Rightarrow> int" where
  "requestLen s = requestBytesRead s + int (length (requestBuf s))"

lemma rb_WriteBlockTo_None: "rb_WriteBlockTo b = None \<Longrightarrow> rb_Len b = 0"
  by (simp add: rb_WriteBlockTo_def rb_Len_def blocksLen_def split: list.splits)

lemma rb_WriteBlockTo_Some:
  "rb_WriteBlockTo b = Some (x, b') \<Longrightarrow> blocks b = x # blocks b' \<and> capacity b' = capacity b"
  by (auto simp: rb_WriteBlockTo_def split: list.splits)

lemma zlibWrite_buffers [simp]:
  "metricsBuffer (zlibWrite E d s) = metricsBuffer s" "buffer (zlibWrite E d s) = buffer s"
  by (simp_all add: zlibWrite_def split: prod.splits)

lemma countTag_buffers [simp]:
  "metricsBuffer (countTag t s) = metricsBuffer s" "buffer (countTag t s) = buffer s"
  by (cases t; simp)+

lemma pullMetrics_buffers [simp]:
  "metricsBuffer (pullMetrics E b mb s) = mb" "buffer (pullMetrics E b mb s) = buffer s"
  by (simp_all add: pullMetrics_def Let_def)

lemma pullTrace_buffers [simp]:
  "metricsBuffer (pullTrace E b tb s) = metricsBuffer s" "buffer (pullTrace E b tb s) = tb"
  by (simp_all add: pullTrace_def Let_def)

text \<open>The inner \<open>for\<close> loop of the streaming step. Where \<open>WriteBlockTo\<close> fails the source goes
  round again with nothing changed; the ring buffer never fails while it reports a positive
  length, and this is what makes the loop terminate.\<close>

function stream_for :: "'z env \<Rightarrow> 'z loop_state \<Rightarrow> 'z loop_state" where
  "stream_for E s =
     (if requestLen s < requestSize (cfg s) then
        (if rb_Len (metricsBuffer s) > 0 then
           (case rb_WriteBlockTo (metricsBuffer s) of
              Some (b, mb) \<Rightarrow> stream_for E (pullMetrics E b mb s)
            | None \<Rightarrow> stream_for E s)
         else if rb_Len (buffer s) = 0 then s
         else (case rb_WriteBlockTo (buffer s) of
                 Some (b, tb) \<Rightarrow> stream_for E (pullTrace E b tb s)
               | None \<Rightarrow> stream_for E s))
      else s)"
  by pat_completeness auto
termination
proof (relation "measure (\<lambda>(E, s). length (blocks (metricsBuffer s)) + length (blocks (buffer s)))")
  show "wf (measure (\<lambda>(E :: 'z env, s :: 'z loop_state).
              length (blocks (metricsBuffer s)) + length (blocks (buffer s))))"
    by simp
qed (auto dest: rb_WriteBlockTo_None rb_WriteBlockTo_Some)

declare stream_for.simps [simp del]

definition streamBlocks :: "'z env \<Rightarrow> 'z loop_state \<Rightarrow> 'z loop_state" where
  "streamBlocks E s =
     (if \<not> closeRequest s \<or> \<not> zlibClosed s then
        (let s1 = stream_for E s
         in if \<not> closeRequest s1
            then s1\<lparr>closeRequest := (requestLen s1 \<ge> requestSize (cfg s1))\<rparr>
            else s1)
      else s)"

definition closeOrFlush :: "'z env \<Rightarrow> 'z loop_state \<Rightarrow> 'z loop_state" where
  "closeOrFlush E s =
     (if closeRequest s then
        (if \<not> zlibClosed s then
           (case zclose (zl E) (zlibWriter s) of
              (z, out) \<Rightarrow> s\<lparr>zlibWriter := z, requestBuf := requestBuf s @ out, zlibClosed := True\<rparr>)
         else s)
      else if flushRequest s \<and> \<not> zlibFlushed s then
        (case zflush (zl E) (zlibWriter s) of
           (z, out) \<Rightarrow> s\<lparr>zlibWriter := z, requestBuf := requestBuf s @ out,
                         flushRequest := False, zlibFlushed := True\<rparr>)
      else s)"

definition zlibHeaderLen :: int where
  "zlibHeaderLen = 2"

text \<open>Answering the pending read request of the transport from \<open>requestBuf\<close>. The buffer is not
  empty where \<open>Read\<close> is called, so it returns no error and as many bytes as fit.\<close>

definition respond :: "'z loop_state \<Rightarrow> 'z loop_state" where
  "respond s =
     (case req_Buf s of
        None \<Rightarrow> s
      | Some p \<Rightarrow>
          if requestBuf s = [] then s
          else if requestLen s > zlibHeaderLen then
            (let n = min p (length (requestBuf s));
                 s1 = s\<lparr>requestBuf := drop n (requestBuf s)\<rparr>;
                 s2 = (emit (Respond n (closeRequest s1 \<and> requestBuf s1 = [])) s1)\<lparr>req_Buf := None\<rparr>
             in if n > 0 then s2\<lparr>requestBytesRead := requestBytesRead s2 + int n\<rparr> else s2)
          else s)"

definition loopRest :: "'z env \<Rightarrow> 'z loop_state \<Rightarrow> 'z loop_state" where
  "loopRest E s =
     (let s1 = startGather (accumulateStats s)
      in if \<not> requestActive s1 \<and> rb_Len (buffer s1) = 0 \<and> rb_Len (metricsBuffer s1) = 0 then s1
         else respond (closeOrFlush E (streamBlocks E
                (if \<not> requestActive s1 then openRequest E s1 else s1))))"

text \<open>One iteration of the \<open>for\<close> loop servicing the given case: \<open>Continue\<close> when the loop goes
  round again, \<open>Return\<close> when \<open>Tracer.loop\<close> returns, \<open>Blocked\<close> when the iteration never ends.\<close>

definition loop_iter :: "'z env \<Rightarrow> selectCase \<Rightarrow> 'z loop_state \<Rightarrow> 'z loop_state flow" where
  "loop_iter E c s =
     (case selectBody E c (s\<lparr>gatherMetrics := False, effects := []\<rparr>) of
        Next s1 \<Rightarrow> Continue (loopRest E s1)
      | Continue s1 \<Rightarrow> Continue s1
      | Return s1 \<Rightarrow> Return s1
      | Blocked s1 \<Rightarrow> Blocked s1)"


text \<open>A run of the loop over the cases serviced in turn, stopping when the loop returns.\<close>

fun run :: "'z env \<Rightarrow> selectCase list \<Rightarrow> 'z loop_state \<Rightarrow> 'z loop_state flow" where
  "run E [] s = Continue s"
| "run E (c # cs) s =
     (case loop_iter E c s of
        Continue s1 \<Rightarrow> run E cs s1
      | Return s1 \<Rightarrow> Return s1
      | Next s1 \<Rightarrow> Next s1
      | Blocked s1 \<Rightarrow> Blocked s1)"

text \<open>Projections of the effects of an iteration.\<close>

fun logOf :: "effect \<Rightarrow> (logLevel \<times> logMessage) list" where
  "logOf (Log l m) = [(l, m)]"
| "logOf e = []"

fun signalOf :: "effect \<Rightarrow> duration list" where
  "signalOf (SendStreamRequest d) = [d]"
| "signalOf e = []"

fun flushAckOf :: "effect \<Rightarrow> chan list" where
  "flushAckOf (AckFlushed c) = [c]"
| "flushAckOf e = []"

fun metricsAckOf :: "effect \<Rightarrow> chan list" where
  "metricsAckOf (AckSentMetrics c) = [c]"
| "metricsAckOf e = []"

fun gatherOf :: "effect \<Rightarrow> nat list list" where
  "gatherOf (GatherMetrics gs) = [gs]"
| "gatherOf e = []"

definition logsOf :: "effect list \<Rightarrow> (logLevel \<times> logMessage) list" where
  "logsOf es = concat (map logOf es)"

definition signalsOf :: "effect list \<Rightarrow> duration list" where
  "signalsOf es = concat (map signalOf es)"

definition flushAcksOf :: "effect list \<Rightarrow> chan list" where
  "flushAcksOf es = concat (map flushAckOf es)"

definition metricsAcksOf :: "effect list \<Rightarrow> chan list" where
  "metricsAcksOf es = concat (map metricsAckOf es)"

definition gathersOf :: "effect list \<Rightarrow> nat list list" where
  "gathersOf es = concat (map gatherOf es)"

text \<open>The severity the loop picks for a failed send.\<close>

definition failureLevel :: "sendError \<Rightarrow> logLevel" where
  "failureLevel err = (case err of HTTPError code \<Rightarrow> if code = 404 then Errorf else Debugf
                                 | OtherError \<Rightarrow> Debugf)"


lemma zlibWrite_frame [simp]:
  "gracePeriod (zlibWrite E d s) = gracePeriod s" "stats (zlibWrite E d s) = stats s"
  "t_stats (zlibWrite E d s) = t_stats s" "effects (zlibWrite E d s) = effects s"
  "cfg (zlibWrite E d s) = cfg s" "sentMetrics (zlibWrite E d s) = sentMetrics s"
  "flushed (zlibWrite E d s) = flushed s" "flushedFull (zlibWrite E d s) = flushedFull s" "requestActive (zlibWrite E d s) = requestActive s"
  "req_Buf (zlibWrite E d s) = req_Buf s" "requestBytesRead (zlibWrite E d s) = requestBytesRead s"
  "gatheringMetrics (zlibWrite E d s) = gatheringMetrics s"
  "metricsTimerStart (zlibWrite E d s) = metricsTimerStart s"
  "metadata (zlibWrite E d s) = metadata s"
  "requestTimerActive (zlibWrite E d s) = requestTimerActive s"
  "zlibClosed (zlibWrite E d s) = zlibClosed s" "flushRequest (zlibWrite E d s) = flushRequest s"
  "gatherMetrics (zlibWrite E d s) = gatherMetrics s"
  "metrics_disabled (zlibWrite E d s) = metrics_disabled s"
  "closeRequest (zlibWrite E d s) = closeRequest s"
  "zlibFlushed (zlibWrite E d s) = zlibFlushed s"
  "requestBufTransactions (zlibWrite E d s) = requestBufTransactions s"
  "requestBufSpans (zlibWrite E d s) = requestBufSpans s"
  "requestBufErrors (zlibWrite E d s) = requestBufErrors s"
  "requestBufMetricsets (zlibWrite E d s) = requestBufMetricsets s"
  by (simp_all add: zlibWrite_def split: prod.splits)

lemma countTag_frame [simp]:
  "gracePeriod (countTag t s) = gracePeriod s" "stats (countTag t s) = stats s"
  "t_stats (countTag t s) = t_stats s" "effects (countTag t s) = effects s"
  "cfg (countTag t s) = cfg s" "sentMetrics (countTag t s) = sentMetrics s"
  "flushed (countTag t s) = flushed s" "flushedFull (countTag t s) = flushedFull s" "requestActive (countTag t s) = requestActive s"
  "req_Buf (countTag t s) = req_Buf s" "requestBytesRead (countTag t s) = requestBytesRead s"
  "gatheringMetrics (countTag t s) = gatheringMetrics s"
  "metricsTimerStart (countTag t s) = metricsTimerStart s"
  "metadata (countTag t s) = metadata s"
  "requestTimerActive (countTag t s) = requestTimerActive s"
  "zlibClosed (countTag t s) = zlibClosed s" "flushRequest (countTag t s) = flushRequest s"
  "gatherMetrics (countTag t s) = gatherMetrics s"
  "metrics_disabled (countTag t s) = metrics_disabled s"
  "closeRequest (countTag t s) = closeRequest s"
  "zlibFlushed (countTag t s) = zlibFlushed s"
  "requestBuf (countTag t s) = requestBuf s"
  "zlibWriter (countTag t s) = zlibWriter s"
  "requestBufMetricsets (countTag t s) = requestBufMetricsets s"
  by (cases t; simp)+

lemma pullMetrics_frame [simp]:
  "gracePeriod (pullMetrics E b mb s) = gracePeriod s" "stats (pullMetrics E b mb s) = stats s"
  "t_stats (pullMetrics E b mb s) = t_stats s" "effects (pullMetrics E b mb s) = effects s"
  "cfg (pullMetrics E b mb s) = cfg s" "sentMetrics (pullMetrics E b mb s) = sentMetrics s"
  "flushed (pullMetrics E b mb s) = flushed s" "flushedFull (pullMetrics E b mb s) = flushedFull s" "requestActive (pullMetrics E b mb s) = requestActive s"
  "req_Buf (pullMetrics E b mb s) = req_Buf s" "requestBytesRead (pullMetrics E b mb s) = requestBytesRead s"
  "gatheringMetrics (pullMetrics E b mb s) = gatheringMetrics s"
  "metricsTimerStart (pullMetrics E b mb s) = metricsTimerStart s"
  "metadata (pullMetrics E b mb s) = metadata s"
  "requestTimerActive (pullMetrics E b mb s) = requestTimerActive s"
  "zlibClosed (pullMetrics E b mb s) = zlibClosed s" "flushRequest (pullMetrics E b mb s) = flushRequest s"
  "gatherMetrics (pullMetrics E b mb s) = gatherMetrics s"
  "metrics_disabled (pullMetrics E b mb s) = metrics_disabled s"
  "requestBufTransactions (pullMetrics E b mb s) = requestBufTransactions s"
  "requestBufSpans (pullMetrics E b mb s) = requestBufSpans s"
  "requestBufErrors (pullMetrics E b mb s) = requestBufErrors s"
  by (simp_all add: pullMetrics_def Let_def)

lemma pullTrace_frame [simp]:
  "gracePeriod (pullTrace E b tb s) = gracePeriod s" "stats (pullTrace E b tb s) = stats s"
  "t_stats (pullTrace E b tb s) = t_stats s" "effects (pullTrace E b tb s) = effects s"
  "cfg (pullTrace E b tb s) = cfg s" "sentMetrics (pullTrace E b tb s) = sentMetrics s"
  "flushed (pullTrace E b tb s) = flushed s" "flushedFull (pullTrace E b tb s) = flushedFull s" "requestActive (pullTrace E b tb s) = requestActive s"
  "req_Buf (pullTrace E b tb s) = req_Buf s" "requestBytesRead (pullTrace E b tb s) = requestBytesRead s"
  "gatheringMetrics (pullTrace E b tb s) = gatheringMetrics s"
  "metricsTimerStart (pullTrace E b tb s) = metricsTimerStart s"
  "metadata (pullTrace E b tb s) = metadata s"
  "requestTimerActive (pullTrace E b tb s) = requestTimerActive s"
  "zlibClosed (pullTrace E b tb s) = zlibClosed s" "flushRequest (pullTrace E b tb s) = flushRequest s"
  "gatherMetrics (pullTrace E b tb s) = gatherMetrics s"
  "metrics_disabled (pullTrace E b tb s) = metrics_disabled s"
  "closeRequest (pullTrace E b tb s) = closeRequest s"
  "requestBufMetricsets (pullTrace E b tb s) = requestBufMetricsets s"
  by (simp_all add: pullTrace_def Let_def)


lemma stream_for_stop:
  "\<not> requestLen s < requestSize (cfg s) \<Longrightarrow> stream_for E s = s"
  by (subst stream_for.simps) simp

lemma stream_for_empty:
  "rb_Len (metricsBuffer s) = 0 \<Longrightarrow> rb_Len (buffer s) = 0 \<Longrightarrow> stream_for E s = s"
  by (subst stream_for.simps) simp

lemma stream_for_metrics:
  "requestLen s < requestSize (cfg s) \<Longrightarrow> rb_Len (metricsBuffer s) > 0 \<Longrightarrow>
   rb_WriteBlockTo (metricsBuffer s) = Some (b, mb) \<Longrightarrow>
   stream_for E s = stream_for E (pullMetrics E b mb s)"
  by (subst stream_for.simps) simp

lemma stream_for_trace:
  "requestLen s < requestSize (cfg s) \<Longrightarrow> rb_Len (metricsBuffer s) = 0 \<Longrightarrow>
   rb_Len (buffer s) > 0 \<Longrightarrow> rb_WriteBlockTo (buffer s) = Some (b, tb) \<Longrightarrow>
   stream_for E s = stream_for E (pullTrace E b tb s)"
  by (subst stream_for.simps) simp

lemma stream_for_induct [case_names stop pullm pullt]:
  assumes stop: "\<And>s. stream_for E s = s \<Longrightarrow>
             (\<not> requestLen s < requestSize (cfg s) \<or>
              rb_Len (metricsBuffer s) = 0 \<and> rb_Len (buffer s) = 0) \<Longrightarrow> P s"
    and pullm: "\<And>s b mb. requestLen s < requestSize (cfg s) \<Longrightarrow>
             rb_Len (metricsBuffer s) > 0 \<Longrightarrow>
             rb_WriteBlockTo (metricsBuffer s) = Some (b, mb) \<Longrightarrow>
             stream_for E s = stream_for E (pullMetrics E b mb s) \<Longrightarrow>
             P (pullMetrics E b mb s) \<Longrightarrow> P s"
    and pullt: "\<And>s b tb. requestLen s < requestSize (cfg s) \<Longrightarrow>
             rb_Len (metricsBuffer s) = 0 \<Longrightarrow> rb_Len (buffer s) > 0 \<Longrightarrow>
             rb_WriteBlockTo (buffer s) = Some (b, tb) \<Longrightarrow>
             stream_for E s = stream_for E (pullTrace E b tb s) \<Longrightarrow>
             P (pullTrace E b tb s) \<Longrightarrow> P s"
  shows "P s"
proof -
  have "E0 = E \<longrightarrow> P s" for E0
  proof (induction E0 s rule: stream_for.induct)
    case (1 E0 s)
    show ?case
    proof
      assume e: "E0 = E"
      show "P s"
      proof (cases "requestLen s < requestSize (cfg s)")
        case False
        then show ?thesis by (intro stop stream_for_stop) simp_all
      next
        case lt: True
        show ?thesis
        proof (cases "rb_Len (metricsBuffer s) > 0")
          case m: True
          then obtain b mb where w: "rb_WriteBlockTo (metricsBuffer s) = Some (b, mb)"
            by (cases "rb_WriteBlockTo (metricsBuffer s)") (auto dest: rb_WriteBlockTo_None)
          from "1.IH"(2) [OF lt m w refl] e have "P (pullMetrics E b mb s)" by simp
          with lt m w show ?thesis
            by (intro pullm [of s b mb] stream_for_metrics)
        next
          case m: False
          show ?thesis
          proof (cases "rb_Len (buffer s) = 0")
            case True
            then show ?thesis using m by (intro stop stream_for_empty) simp_all
          next
            case False
            then have t: "rb_Len (buffer s) > 0" by simp
            then obtain b tb where w: "rb_WriteBlockTo (buffer s) = Some (b, tb)"
              by (cases "rb_WriteBlockTo (buffer s)") (auto dest: rb_WriteBlockTo_None)
            have m0: "rb_Len (metricsBuffer s) = 0" using m by simp
            from "1.IH"(4) [OF lt m False w refl] e have "P (pullTrace E b tb s)" by simp
            with lt m0 t w show ?thesis
              by (intro pullt [of s b tb] stream_for_trace)
          qed
        qed
      qed
    qed
  qed
  then show ?thesis by simp
qed

lemma stream_for_frame:
  "gracePeriod (stream_for E s) = gracePeriod s \<and> stats (stream_for E s) = stats s \<and>
   t_stats (stream_for E s) = t_stats s \<and> effects (stream_for E s) = effects s \<and>
   cfg (stream_for E s) = cfg s \<and> sentMetrics (stream_for E s) = sentMetrics s \<and>
   flushed (stream_for E s) = flushed s \<and> flushedFull (stream_for E s) = flushedFull s \<and>
   requestActive (stream_for E s) = requestActive s \<and>
   req_Buf (stream_for E s) = req_Buf s \<and> requestBytesRead (stream_for E s) = requestBytesRead s \<and>
   gatheringMetrics (stream_for E s) = gatheringMetrics s \<and>
   metricsTimerStart (stream_for E s) = metricsTimerStart s \<and>
   metadata (stream_for E s) = metadata s \<and>
   requestTimerActive (stream_for E s) = requestTimerActive s \<and>
   zlibClosed (stream_for E s) = zlibClosed s \<and> flushRequest (stream_for E s) = flushRequest s \<and>
   gatherMetrics (stream_for E s) = gatherMetrics s \<and>
   metrics_disabled (stream_for E s) = metrics_disabled s"
  by (induction s rule: stream_for_induct [where E = E]) simp_all


lemma emit_frame [simp]:
  "gracePeriod (emit e s) = gracePeriod s" "stats (emit e s) = stats s"
  "t_stats (emit e s) = t_stats s" "effects (emit e s) = effects s @ [e]"
  "cfg (emit e s) = cfg s" "sentMetrics (emit e s) = sentMetrics s"
  "flushed (emit e s) = flushed s" "flushedFull (emit e s) = flushedFull s" "requestActive (emit e s) = requestActive s"
  "req_Buf (emit e s) = req_Buf s" "requestBytesRead (emit e s) = requestBytesRead s"
  "gatheringMetrics (emit e s) = gatheringMetrics s"
  "metricsTimerStart (emit e s) = metricsTimerStart s"
  "metadata (emit e s) = metadata s"
  "requestTimerActive (emit e s) = requestTimerActive s"
  "zlibClosed (emit e s) = zlibClosed s" "flushRequest (emit e s) = flushRequest s"
  "gatherMetrics (emit e s) = gatherMetrics s"
  "metrics_disabled (emit e s) = metrics_disabled s"
  "closeRequest (emit e s) = closeRequest s"
  "zlibFlushed (emit e s) = zlibFlushed s"
  "requestBuf (emit e s) = requestBuf s"
  "zlibWriter (emit e s) = zlibWriter s"
  "requestBufTransactions (emit e s) = requestBufTransactions s"
  "requestBufSpans (emit e s) = requestBufSpans s"
  "requestBufErrors (emit e s) = requestBufErrors s"
  "requestBufMetricsets (emit e s) = requestBufMetricsets s"
  "buffer (emit e s) = buffer s" "metricsBuffer (emit e s) = metricsBuffer s"
  by (simp_all add: emit_def)

lemma projections_append [simp]:
  "logsOf (xs @ ys) = logsOf xs @ logsOf ys" "logsOf [] = []" "logsOf [e] = logOf e"
  "signalsOf (xs @ ys) = signalsOf xs @ signalsOf ys" "signalsOf [] = []" "signalsOf [e] = signalOf e"
  "flushAcksOf (xs @ ys) = flushAcksOf xs @ flushAcksOf ys" "flushAcksOf [] = []"
  "flushAcksOf [e] = flushAckOf e"
  "metricsAcksOf (xs @ ys) = metricsAcksOf xs @ metricsAcksOf ys" "metricsAcksOf [] = []"
  "metricsAcksOf [e] = metricsAckOf e"
  "gathersOf (xs @ ys) = gathersOf xs @ gathersOf ys" "gathersOf [] = []" "gathersOf [e] = gatherOf e"
  "logsOf (e # xs) = logOf e @ logsOf xs" "signalsOf (e # xs) = signalOf e @ signalsOf xs"
  "flushAcksOf (e # xs) = flushAckOf e @ flushAcksOf xs"
  "metricsAcksOf (e # xs) = metricsAckOf e @ metricsAcksOf xs"
  "gathersOf (e # xs) = gatherOf e @ gathersOf xs"
  by (simp_all add: logsOf_def signalsOf_def flushAcksOf_def metricsAcksOf_def gathersOf_def)

lemma accumulateStats_stats [simp]: "stats (accumulateStats s) = zeroStats"
  by (simp add: accumulateStats_def isZero_def)

lemma accumulateStats_idem: "stats s = zeroStats \<Longrightarrow> accumulateStats s = s"
  by (simp add: accumulateStats_def isZero_def)

lemma accumulateStats_frame [simp]:
  "gracePeriod (accumulateStats s) = gracePeriod s" "effects (accumulateStats s) = effects s"
  "cfg (accumulateStats s) = cfg s" "sentMetrics (accumulateStats s) = sentMetrics s"
  "flushed (accumulateStats s) = flushed s" "flushedFull (accumulateStats s) = flushedFull s" "requestActive (accumulateStats s) = requestActive s"
  "gatheringMetrics (accumulateStats s) = gatheringMetrics s"
  "gatherMetrics (accumulateStats s) = gatherMetrics s"
  "buffer (accumulateStats s) = buffer s" "metricsBuffer (accumulateStats s) = metricsBuffer s"
  "requestBufMetricsets (accumulateStats s) = requestBufMetricsets s"
  by (simp_all add: accumulateStats_def)

lemma streamBlocks_frame [simp]:
  "gracePeriod (streamBlocks E s) = gracePeriod s" "stats (streamBlocks E s) = stats s"
  "t_stats (streamBlocks E s) = t_stats s" "effects (streamBlocks E s) = effects s"
  "cfg (streamBlocks E s) = cfg s" "sentMetrics (streamBlocks E s) = sentMetrics s"
  "flushed (streamBlocks E s) = flushed s" "flushedFull (streamBlocks E s) = flushedFull s" "requestActive (streamBlocks E s) = requestActive s"
  "gatheringMetrics (streamBlocks E s) = gatheringMetrics s"
  "gatherMetrics (streamBlocks E s) = gatherMetrics s"
  by (simp_all add: streamBlocks_def Let_def stream_for_frame)

lemma closeOrFlush_frame [simp]:
  "gracePeriod (closeOrFlush E s) = gracePeriod s" "stats (closeOrFlush E s) = stats s"
  "t_stats (closeOrFlush E s) = t_stats s" "effects (closeOrFlush E s) = effects s"
  "cfg (closeOrFlush E s) = cfg s" "sentMetrics (closeOrFlush E s) = sentMetrics s"
  "flushed (closeOrFlush E s) = flushed s" "flushedFull (closeOrFlush E s) = flushedFull s" "requestActive (closeOrFlush E s) = requestActive s"
  "gatheringMetrics (closeOrFlush E s) = gatheringMetrics s"
  "gatherMetrics (closeOrFlush E s) = gatherMetrics s"
  by (simp_all add: closeOrFlush_def split: prod.splits)

lemma respond_frame [simp]:
  "gracePeriod (respond s) = gracePeriod s" "stats (respond s) = stats s"
  "t_stats (respond s) = t_stats s"
  "cfg (respond s) = cfg s" "sentMetrics (respond s) = sentMetrics s"
  "flushed (respond s) = flushed s" "flushedFull (respond s) = flushedFull s" "requestActive (respond s) = requestActive s"
  "gatheringMetrics (respond s) = gatheringMetrics s"
  "gatherMetrics (respond s) = gatherMetrics s"
  "logsOf (effects (respond s)) = logsOf (effects s)"
  "signalsOf (effects (respond s)) = signalsOf (effects s)"
  "flushAcksOf (effects (respond s)) = flushAcksOf (effects s)"
  "metricsAcksOf (effects (respond s)) = metricsAcksOf (effects s)"
  "gathersOf (effects (respond s)) = gathersOf (effects s)"
  by (simp_all add: respond_def Let_def split: option.splits)

lemma openRequest_frame [simp]:
  "gracePeriod (openRequest E s) = gracePeriod s" "stats (openRequest E s) = stats s"
  "t_stats (openRequest E s) = t_stats s"
  "cfg (openRequest E s) = cfg s" "sentMetrics (openRequest E s) = sentMetrics s"
  "flushed (openRequest E s) = flushed s" "flushedFull (openRequest E s) = flushedFull s" "requestActive (openRequest E s) = True"
  "gatheringMetrics (openRequest E s) = gatheringMetrics s"
  "gatherMetrics (openRequest E s) = gatherMetrics s"
  "logsOf (effects (openRequest E s)) = logsOf (effects s)"
  "signalsOf (effects (openRequest E s)) = signalsOf (effects s) @ [gracePeriod s]"
  "flushAcksOf (effects (openRequest E s)) = flushAcksOf (effects s)"
  "metricsAcksOf (effects (openRequest E s)) = metricsAcksOf (effects s)"
  "gathersOf (effects (openRequest E s)) = gathersOf (effects s)"
  by (simp_all add: openRequest_def Let_def)

lemma startGather_frame [simp]:
  "gracePeriod (startGather s) = gracePeriod s" "stats (startGather s) = stats s"
  "t_stats (startGather s) = t_stats s"
  "cfg (startGather s) = cfg s" "sentMetrics (startGather s) = sentMetrics s"
  "flushed (startGather s) = flushed s" "flushedFull (startGather s) = flushedFull s" "requestActive (startGather s) = requestActive s"
  "gatheringMetrics (startGather s) = (gatheringMetrics s \<or> gatherMetrics s)"
  "gatherMetrics (startGather s) = gatherMetrics s"
  "buffer (startGather s) = buffer s" "metricsBuffer (startGather s) = metricsBuffer s"
  "logsOf (effects (startGather s)) = logsOf (effects s) @
     (if gatherMetrics s \<and> logger (cfg s) \<noteq> None then [(Debugf, GatheringMetrics)] else [])"
  "signalsOf (effects (startGather s)) = signalsOf (effects s)"
  "flushAcksOf (effects (startGather s)) = flushAcksOf (effects s)"
  "metricsAcksOf (effects (startGather s)) = metricsAcksOf (effects s)"
  "gathersOf (effects (startGather s)) = gathersOf (effects s) @
     (if gatherMetrics s then [metricsGatherers (cfg s)] else [])"
  by (simp_all add: startGather_def Let_def)

lemma loopRest_frame:
  "gracePeriod (loopRest E s) = gracePeriod s" "stats (loopRest E s) = zeroStats"
  "t_stats (loopRest E s) = t_stats (accumulateStats s)"
  "cfg (loopRest E s) = cfg s" "sentMetrics (loopRest E s) = sentMetrics s"
  "flushed (loopRest E s) = flushed s" "flushedFull (loopRest E s) = flushedFull s"
  "gatheringMetrics (loopRest E s) = (gatheringMetrics s \<or> gatherMetrics s)"
  "gatherMetrics (loopRest E s) = gatherMetrics s"
  "logsOf (effects (loopRest E s)) = logsOf (effects s) @
     (if gatherMetrics s \<and> logger (cfg s) \<noteq> None then [(Debugf, GatheringMetrics)] else [])"
  "flushAcksOf (effects (loopRest E s)) = flushAcksOf (effects s)"
  "metricsAcksOf (effects (loopRest E s)) = metricsAcksOf (effects s)"
  "gathersOf (effects (loopRest E s)) = gathersOf (effects s) @
     (if gatherMetrics s then [metricsGatherers (cfg s)] else [])"
  by (auto simp: loopRest_def Let_def)


text \<open>Modelled from the spec: \<open>nextGracePeriod\<close> is not among the source files. Section 4.4 says
  that on failure "the retry grace period advances (doubling-style escalation ..., capped at a
  maximum)". The spec gives neither the first period after the no-delay state nor the maximum;
  both are parameters here.\<close>

definition nextGracePeriod_spec :: "duration \<Rightarrow> duration \<Rightarrow> duration \<Rightarrow> duration" where
  "nextGracePeriod_spec first maxPeriod p =
     (if p \<le> 0 then min first maxPeriod else min (2 * p) maxPeriod)"

text \<open>A stand-in for the compressor in concrete runs: it emits the two-byte zlib header at the
  first write, holds the data back until it is flushed or closed, and ends the stream with a
  four-byte trailer.\<close>

definition zlibHeader :: bytes where
  "zlibHeader = [120, 1]"

definition storedZ :: "(bool \<times> bytes) zlib" where
  "storedZ =
     \<lparr>zinit = (False, []),
      zwrite = (\<lambda>(h, p) d. ((True, p @ d), if h then [] else zlibHeader)),
      zflush = (\<lambda>(h, p). ((True, []), (if h then [] else zlibHeader) @ p)),
      zclose = (\<lambda>(h, p). ((True, []), (if h then [] else zlibHeader) @ p @ [0, 0, 0, 0]))\<rparr>"

definition E0 :: "(bool \<times> bytes) env" where
  "E0 = \<lparr>zl = storedZ, jsonRequestMetadata = [123, 125, 10],
          nextGracePeriod = nextGracePeriod_spec 1 32\<rparr>"

definition init0 :: "(bool \<times> bytes) loop_state" where
  "init0 = loop_init E0 64 64 zeroStats"

text \<open>The configuration command that \<open>newTracer\<close> sends first, with no default logger
  installed (\<open>apmlog.DefaultLogger\<close> is nil unless the environment configures one).\<close>

definition setup0 :: "tracerConfig \<Rightarrow> tracerConfig" where
  "setup0 c = c\<lparr>metricsInterval := 0, requestDuration := 10, requestSize := 100,
                 sanitizedFieldNames := [], disabledMetrics := [], preContext := 3,
                 postContext := 3, metricsGatherers := [0]\<rparr>"

fun lastState :: "'a flow \<Rightarrow> 'a" where
  "lastState (Next s) = s"
| "lastState (Continue s) = s"
| "lastState (Return s) = s"
| "lastState (Blocked s) = s"


lemma resultOutcome_failure:
  "stats (resultOutcome E (Some err) s) =
     (stats s)\<lparr>Errors_SendStream := Errors_SendStream (stats s) + 1\<rparr>"
  "gracePeriod (resultOutcome E (Some err) s) = nextGracePeriod E (gracePeriod s)"
  "t_stats (resultOutcome E (Some err) s) = t_stats s"
  "logsOf (effects (resultOutcome E (Some err) s)) = logsOf (effects s) @
     (if logger (cfg s) = None then []
      else [(failureLevel err, RequestFailed err (nextGracePeriod E (gracePeriod s)))])"
  by (simp_all add: resultOutcome_def Let_def failureLevel_def)

lemma accumulate_t_stats:
  "Errors_SendStream (t_stats (accumulateStats s)) =
     Errors_SendStream (t_stats s) + Errors_SendStream (stats s)"
  "TransactionsSent (t_stats (accumulateStats s)) =
     TransactionsSent (t_stats s) + TransactionsSent (stats s)"
  "SpansSent (t_stats (accumulateStats s)) = SpansSent (t_stats s) + SpansSent (stats s)"
  "ErrorsSent (t_stats (accumulateStats s)) = ErrorsSent (t_stats s) + ErrorsSent (stats s)"
  "TransactionsDropped (t_stats (accumulateStats s)) =
     TransactionsDropped (t_stats s) + TransactionsDropped (stats s)"
  "SpansDropped (t_stats (accumulateStats s)) = SpansDropped (t_stats s) + SpansDropped (stats s)"
  "ErrorsDropped (t_stats (accumulateStats s)) = ErrorsDropped (t_stats s) + ErrorsDropped (stats s)"
  by (auto simp: accumulateStats_def isZero_def accumulate_def zeroStats_def)

lemma ack_frame [simp]:
  "gracePeriod (ackSentMetrics s) = gracePeriod s" "stats (ackSentMetrics s) = stats s"
  "t_stats (ackSentMetrics s) = t_stats s" "cfg (ackSentMetrics s) = cfg s"
  "flushed (ackSentMetrics s) = flushed s" "flushedFull (ackSentMetrics s) = flushedFull s"
  "gatheringMetrics (ackSentMetrics s) = gatheringMetrics s"
  "gatherMetrics (ackSentMetrics s) = gatherMetrics s"
  "logsOf (effects (ackSentMetrics s)) = logsOf (effects s)"
  "signalsOf (effects (ackSentMetrics s)) = signalsOf (effects s)"
  "flushAcksOf (effects (ackSentMetrics s)) = flushAcksOf (effects s)"
  "gracePeriod (flushAcked s) = gracePeriod s" "stats (flushAcked s) = stats s"
  "t_stats (flushAcked s) = t_stats s" "cfg (flushAcked s) = cfg s"
  "sentMetrics (flushAcked s) = sentMetrics s"
  "gatheringMetrics (flushAcked s) = gatheringMetrics s"
  "gatherMetrics (flushAcked s) = gatherMetrics s"
  "logsOf (effects (flushAcked s)) = logsOf (effects s)"
  "signalsOf (effects (flushAcked s)) = signalsOf (effects s)"
  "metricsAcksOf (effects (flushAcked s)) = metricsAcksOf (effects s)"
  by (simp_all add: ackSentMetrics_def flushAcked_def split: option.splits)

lemma resetRequest_frame [simp]:
  "gracePeriod (resetRequest s) = gracePeriod s" "stats (resetRequest s) = stats s"
  "t_stats (resetRequest s) = t_stats s" "cfg (resetRequest s) = cfg s"
  "sentMetrics (resetRequest s) = sentMetrics s" "flushed (resetRequest s) = flushed s" "flushedFull (resetRequest s) = flushedFull s"
  "gatheringMetrics (resetRequest s) = gatheringMetrics s"
  "gatherMetrics (resetRequest s) = gatherMetrics s"
  "buffer (resetRequest s) = buffer s" "metricsBuffer (resetRequest s) = metricsBuffer s"
  "logsOf (effects (resetRequest s)) = logsOf (effects s)"
  "signalsOf (effects (resetRequest s)) = signalsOf (effects s)"
  "flushAcksOf (effects (resetRequest s)) = flushAcksOf (effects s)"
  "metricsAcksOf (effects (resetRequest s)) = metricsAcksOf (effects s)"
  "gathersOf (effects (resetRequest s)) = gathersOf (effects s)"
  by (simp_all add: resetRequest_def Let_def)

lemma flushBlocked_upd [simp]:
  "flushBlocked (s\<lparr>gatherMetrics := g, effects := es\<rparr>) = flushBlocked s"
  by (simp add: flushBlocked_def)

lemma resultBlocked_flushed [simp]:
  "flushed (resultBlocked E r s) = flushed s" "flushedFull (resultBlocked E r s) = flushedFull s"
  by (simp_all add: resultBlocked_def resultOutcome_def Let_def split: option.splits)

lemma caseRequestResult_eq:
  "caseRequestResult E r s =
     (if flushBlocked s then Blocked (resultBlocked E r s) else Next (resultDone E r s))"
proof -
  have "ackFlushed (resultBlocked E r s) =
          (if flushBlocked s then None else Some (flushAcked (resultBlocked E r s)))"
    by (simp add: ackFlushed_def flushBlocked_def flushAcked_def split: option.splits)
  then show ?thesis
    by (simp add: caseRequestResult_def Let_def resultDone_def resultBlocked_def [symmetric])
qed

lemma loop_iter_requestResult:
  "\<not> flushBlocked s \<Longrightarrow> loop_iter E (requestResult r) s =
     Continue (loopRest E (resultDone E r (s\<lparr>gatherMetrics := False, effects := []\<rparr>)))"
  by (simp add: loop_iter_def caseRequestResult_eq)

lemma loop_iter_requestResult_blocked:
  "flushBlocked s \<Longrightarrow> loop_iter E (requestResult r) s =
     Blocked (resultBlocked E r (s\<lparr>gatherMetrics := False, effects := []\<rparr>))"
  by (simp add: loop_iter_def caseRequestResult_eq)

section \<open>Send failures (claim C9)\<close>

text \<open>Claim C9, as amended: every transport send failure increments the send-error counter of
  the statistics (merged into the shared statistics within the same iteration) and advances
  the grace period, and the loop does not return; when a logger is configured the failure is
  logged once, at error severity for an HTTP error with status 404 and at debug severity
  otherwise; when no logger is configured nothing is logged. The loop then goes round again,
  unless it is held at the send of a flush acknowledgment whose channel has no free slot.\<close>

theorem send_failure_counted_and_logged:
  "\<exists>s'. loop_iter E (requestResult (Some err)) s =
        (if flushBlocked s then Blocked s' else Continue s') \<and>
      Errors_SendStream (t_stats s') =
        Errors_SendStream (t_stats s) + Errors_SendStream (stats s) + 1 \<and>
      stats s' = zeroStats \<and>
      gracePeriod s' = nextGracePeriod E (gracePeriod s) \<and>
      logsOf (effects s') =
        (if logger (cfg s) = None then []
         else [(if err = HTTPError 404 then Errorf else Debugf,
                RequestFailed err (nextGracePeriod E (gracePeriod s)))])"
proof -
  let ?s0 = "s\<lparr>gatherMetrics := False, effects := []\<rparr>"
  let ?b = "resultBlocked E (Some err) ?s0"
  let ?s1 = "resultDone E (Some err) ?s0"
  have lvl: "failureLevel err = (if err = HTTPError 404 then Errorf else Debugf)"
    by (cases err) (simp_all add: failureLevel_def)
  have stb: "stats ?b = zeroStats"
    by (simp add: resultBlocked_def)
  have tsb: "Errors_SendStream (t_stats ?b) =
              Errors_SendStream (t_stats s) + Errors_SendStream (stats s) + 1"
    by (simp add: resultBlocked_def accumulate_t_stats resultOutcome_failure)
  have gpb: "gracePeriod ?b = nextGracePeriod E (gracePeriod s)"
    by (simp add: resultBlocked_def resultOutcome_failure)
  have lgb: "logsOf (effects ?b) =
        (if logger (cfg s) = None then []
         else [(failureLevel err, RequestFailed err (nextGracePeriod E (gracePeriod s)))])"
    by (simp add: resultBlocked_def resultOutcome_failure)
  have st: "stats ?s1 = zeroStats"
    by (simp add: resultDone_def stb)
  have ts: "Errors_SendStream (t_stats ?s1) =
              Errors_SendStream (t_stats s) + Errors_SendStream (stats s) + 1"
    by (simp add: resultDone_def tsb)
  have gp: "gracePeriod ?s1 = nextGracePeriod E (gracePeriod s)"
    by (simp add: resultDone_def gpb)
  have gm: "gatherMetrics ?s1 = False"
    by (simp add: resultDone_def resultBlocked_def resultOutcome_def Let_def
        split: option.splits)
  have lg: "logsOf (effects ?s1) =
        (if logger (cfg s) = None then []
         else [(failureLevel err, RequestFailed err (nextGracePeriod E (gracePeriod s)))])"
    by (simp add: resultDone_def lgb)
  show ?thesis
  proof (cases "flushBlocked s")
    case True
    show ?thesis
      unfolding loop_iter_requestResult_blocked [OF True]
      by (rule exI [of _ ?b]) (simp add: True stb tsb gpb lgb lvl)
  next
    case False
    show ?thesis
      unfolding loop_iter_requestResult [OF False]
      by (rule exI [of _ "loopRest E ?s1"])
         (simp add: False loopRest_frame st ts gp gm lg lvl accumulateStats_idem)
  qed
qed


text \<open>The loop can be held in this way: a call to \<open>Flush\<close> on a tracer with nothing to send is
  answered at once, and the caller does not receive the answer (it has left through \<open>abort\<close>);
  a transaction then opens a request, and when the result of its send arrives, the loop counts
  the failure and stays at the send of a second acknowledgment on the full channel, with the
  request still active.\<close>

lemma stale_flush_acknowledgment_blocks:
  "flushAcksOf (effects (lastState (run E0 [configCommand setup0 0, forceFlush 7 []] init0))) =
     [7] \<and>
   flushBlocked (lastState (run E0 [configCommand setup0 0, forceFlush 7 [],
      event (transactionEvent [1, 2, 3])] init0)) \<and>
   (case run E0 [configCommand setup0 0, forceFlush 7 [], event (transactionEvent [1, 2, 3]),
           requestResult (Some OtherError)] init0 of
      Blocked s \<Rightarrow> Errors_SendStream (t_stats s) = 1 \<and> requestActive s \<and> flushed s = Some 7
    | _ \<Rightarrow> False)"
  by code_simp

text \<open>Claim C9, as stated, fails without a logger: after the first configuration command of a
  tracer with no default logger, a transaction opens a request, its send fails, the failure is
  counted, and nothing is logged.\<close>

theorem send_failure_not_logged_without_logger:
  "logsOf (effects (lastState (run E0 [configCommand setup0 0, event (transactionEvent [1, 2, 3]),
      requestResult (Some OtherError)] init0))) = [] \<and>
   Errors_SendStream (t_stats (lastState (run E0 [configCommand setup0 0,
      event (transactionEvent [1, 2, 3]), requestResult (Some OtherError)] init0))) = 1"
  by code_simp


section \<open>States the loop reaches\<close>


fun isContinue :: "'a flow \<Rightarrow> bool" where
  "isContinue (Continue s) = True"
| "isContinue f = False"

text \<open>The state at the end of the \<open>select\<close> statement of an iteration, before the rest of the
  loop body runs.\<close>

definition afterSelect :: "'z env \<Rightarrow> selectCase \<Rightarrow> 'z loop_state \<Rightarrow> 'z loop_state" where
  "afterSelect E c s = lastState (selectBody E c (s\<lparr>gatherMetrics := False, effects := []\<rparr>))"

definition sentZero :: "TracerStats \<Rightarrow> bool" where
  "sentZero st \<longleftrightarrow> TransactionsSent st = 0 \<and> SpansSent st = 0 \<and> ErrorsSent st = 0 \<and>
     Errors_SendStream st = 0"



lemma Evicted_sentZero: "sentZero (Evicted st t) = sentZero st"
  by (cases t) (simp_all add: sentZero_def)

lemma foldl_Evicted_sentZero: "sentZero (foldl Evicted st ts) = sentZero st"
  by (induction ts arbitrary: st) (simp_all add: Evicted_sentZero)

lemma writeEvent_frame [simp]:
  "gracePeriod (writeEvent e s) = gracePeriod s" "t_stats (writeEvent e s) = t_stats s"
  "effects (writeEvent e s) = effects s" "cfg (writeEvent e s) = cfg s"
  "sentMetrics (writeEvent e s) = sentMetrics s" "flushed (writeEvent e s) = flushed s" "flushedFull (writeEvent e s) = flushedFull s"
  "requestActive (writeEvent e s) = requestActive s"
  "gatheringMetrics (writeEvent e s) = gatheringMetrics s"
  "gatherMetrics (writeEvent e s) = gatherMetrics s"
  "metricsBuffer (writeEvent e s) = metricsBuffer s"
  "closeRequest (writeEvent e s) = closeRequest s"
  "flushRequest (writeEvent e s) = flushRequest s"
  "sentZero (stats (writeEvent e s)) = sentZero (stats s)"
  by (cases e; simp add: writeBlock_def foldl_Evicted_sentZero split: prod.splits)+

lemma fold_writeEvent_frame [simp]:
  "gracePeriod (fold writeEvent es s) = gracePeriod s"
  "t_stats (fold writeEvent es s) = t_stats s"
  "effects (fold writeEvent es s) = effects s" "cfg (fold writeEvent es s) = cfg s"
  "sentMetrics (fold writeEvent es s) = sentMetrics s"
  "flushed (fold writeEvent es s) = flushed s" "flushedFull (fold writeEvent es s) = flushedFull s"
  "requestActive (fold writeEvent es s) = requestActive s"
  "gatheringMetrics (fold writeEvent es s) = gatheringMetrics s"
  "gatherMetrics (fold writeEvent es s) = gatherMetrics s"
  "metricsBuffer (fold writeEvent es s) = metricsBuffer s"
  "closeRequest (fold writeEvent es s) = closeRequest s"
  "flushRequest (fold writeEvent es s) = flushRequest s"
  "sentZero (stats (fold writeEvent es s)) = sentZero (stats s)"
  by (induction es arbitrary: s; simp)+

lemma caseConfigCommand_frame [simp]:
  "gracePeriod (caseConfigCommand cmd now s) = gracePeriod s"
  "stats (caseConfigCommand cmd now s) = stats s"
  "t_stats (caseConfigCommand cmd now s) = t_stats s"
  "cfg (caseConfigCommand cmd now s) = cmd (cfg s)"
  "sentMetrics (caseConfigCommand cmd now s) = sentMetrics s"
  "flushed (caseConfigCommand cmd now s) = flushed s" "flushedFull (caseConfigCommand cmd now s) = flushedFull s"
  "requestActive (caseConfigCommand cmd now s) = requestActive s"
  "gatheringMetrics (caseConfigCommand cmd now s) = gatheringMetrics s"
  "gatherMetrics (caseConfigCommand cmd now s) = gatherMetrics s"
  "buffer (caseConfigCommand cmd now s) = buffer s"
  "metricsBuffer (caseConfigCommand cmd now s) = metricsBuffer s"
  "logsOf (effects (caseConfigCommand cmd now s)) = logsOf (effects s)"
  "signalsOf (effects (caseConfigCommand cmd now s)) = signalsOf (effects s)"
  "flushAcksOf (effects (caseConfigCommand cmd now s)) = flushAcksOf (effects s)"
  "metricsAcksOf (effects (caseConfigCommand cmd now s)) = metricsAcksOf (effects s)"
  "gathersOf (effects (caseConfigCommand cmd now s)) = gathersOf (effects s)"
  by (simp_all add: caseConfigCommand_def Let_def split: option.splits)

lemma zeroStats_sentZero [simp]: "sentZero zeroStats"
  by (simp add: sentZero_def zeroStats_def)






lemma resultOutcome_frame [simp]:
  "flushed (resultOutcome E r s) = flushed s" "flushedFull (resultOutcome E r s) = flushedFull s" "sentMetrics (resultOutcome E r s) = sentMetrics s"
  "requestBufMetricsets (resultOutcome E r s) = requestBufMetricsets s"
  "cfg (resultOutcome E r s) = cfg s" "gatherMetrics (resultOutcome E r s) = gatherMetrics s"
  "gatheringMetrics (resultOutcome E r s) = gatheringMetrics s"
  "buffer (resultOutcome E r s) = buffer s" "metricsBuffer (resultOutcome E r s) = metricsBuffer s"
  "flushAcksOf (effects (resultOutcome E r s)) = flushAcksOf (effects s)"
  "metricsAcksOf (effects (resultOutcome E r s)) = metricsAcksOf (effects s)"
  "signalsOf (effects (resultOutcome E r s)) = signalsOf (effects s)"
  "gathersOf (effects (resultOutcome E r s)) = gathersOf (effects s)"
  by (simp_all add: resultOutcome_def Let_def split: option.splits)


lemma flushAcked_acks:
  "flushAcksOf (effects (flushAcked s)) = flushAcksOf (effects s) @
     (case flushed s of Some c \<Rightarrow> [c] | None \<Rightarrow> [])"
  "flushed (flushAcked s) = None"
  by (simp_all add: flushAcked_def split: option.splits)

lemma resetRequest_idle:
  "\<not> requestActive (resetRequest s)" "requestBytesRead (resetRequest s) = 0"
  "requestBuf (resetRequest s) = []" "requestBufTransactions (resetRequest s) = 0"
  "requestBufSpans (resetRequest s) = 0" "requestBufErrors (resetRequest s) = 0"
  "requestBufMetricsets (resetRequest s) = 0" "\<not> requestTimerActive (resetRequest s)"
  "\<not> closeRequest (resetRequest s)" "\<not> flushRequest (resetRequest s)"
  "req_Buf (resetRequest s) = None"
  by (simp_all add: resetRequest_def Let_def)



lemma ack_more_frame [simp]:
  "requestBufMetricsets (accumulateStats s) = requestBufMetricsets s"
  "metricsAcksOf (effects (accumulateStats s)) = metricsAcksOf (effects s)"
  "requestBufMetricsets (ackSentMetrics s) = requestBufMetricsets s"
  "sentMetrics (flushAcked s) = sentMetrics s"
  by (simp_all add: ackSentMetrics_def flushAcked_def split: option.splits)

section \<open>A successful send (claim C5)\<close>






section \<open>The streaming step (claim C2)\<close>

text \<open>Feeding a list of chunks to the compressor: the compressor state and the request buffer
  after the writes, every emitted byte appended to the buffer.\<close>

fun zfeed :: "'z zlib \<Rightarrow> bytes list \<Rightarrow> 'z \<times> bytes \<Rightarrow> 'z \<times> bytes" where
  "zfeed Z [] zb = zb"
| "zfeed Z (d # ds) zb =
     (case zwrite Z (fst zb) d of (z, out) \<Rightarrow> zfeed Z ds (z, snd zb @ out))"

text \<open>What is written for a list of blocks: each block's data followed by a newline.\<close>

definition chunks :: "block list \<Rightarrow> bytes list" where
  "chunks bs = concat (map (\<lambda>b. [Data b, newline]) bs)"

text \<open>The quantity the loop compares with \<open>cfg.requestSize\<close>, after the given blocks have gone
  into the compressor: the bytes already read by the transport plus the bytes the compressor
  has emitted into \<open>requestBuf\<close>.\<close>

definition sizeAfter :: "'z env \<Rightarrow> 'z loop_state \<Rightarrow> block list \<Rightarrow> int" where
  "sizeAfter E s bs =
     requestBytesRead s +
     int (length (snd (zfeed (zl E) (chunks bs) (zlibWriter s, requestBuf s))))"

definition countOf :: "blockTag \<Rightarrow> block list \<Rightarrow> u64" where
  "countOf t bs = of_nat (length (filter (\<lambda>b. Tag b = t) bs))"

text \<open>\<open>pulled E s s' ms ts\<close>: from \<open>s\<close> the inner loop reaches \<open>s'\<close> by pulling the metrics blocks
  \<open>ms\<close> and then the trace blocks \<open>ts\<close>, oldest first, each while the compared quantity is below
  the ceiling.\<close>

definition pulled ::
  "'z env \<Rightarrow> 'z loop_state \<Rightarrow> 'z loop_state \<Rightarrow> block list \<Rightarrow> block list \<Rightarrow> bool" where
  "pulled E s s' ms ts \<longleftrightarrow>
     blocks (metricsBuffer s) = ms @ blocks (metricsBuffer s') \<and>
     blocks (buffer s) = ts @ blocks (buffer s') \<and>
     (ts = [] \<or> rb_Len (metricsBuffer s') = 0) \<and>
     (ms = [] \<or> rb_Len (metricsBuffer s) > 0) \<and>
     (zlibWriter s', requestBuf s') =
        zfeed (zl E) (chunks (ms @ ts)) (zlibWriter s, requestBuf s) \<and>
     requestBytesRead s' = requestBytesRead s \<and>
     (\<forall>k < length (ms @ ts). sizeAfter E s (take k (ms @ ts)) < requestSize (cfg s)) \<and>
     (requestSize (cfg s) \<le> requestLen s' \<or>
      rb_Len (metricsBuffer s') = 0 \<and> rb_Len (buffer s') = 0) \<and>
     closeRequest s' = (closeRequest s \<or> ms \<noteq> [] \<and> sentMetrics s \<noteq> None) \<and>
     requestBufMetricsets s' = requestBufMetricsets s + of_nat (length ms) \<and>
     requestBufTransactions s' = requestBufTransactions s + countOf transactionBlockTag ts \<and>
     requestBufSpans s' = requestBufSpans s + countOf spanBlockTag ts \<and>
     requestBufErrors s' = requestBufErrors s + countOf errorBlockTag ts"

text \<open>A state of a concrete run in which a request has just been opened and two blocks wait
  in the trace buffer.\<close>

definition streaming0 :: "(bool \<times> bytes) loop_state" where
  "streaming0 = openRequest E0 (writeEvent (spanEvent [4, 5]) (writeEvent (transactionEvent [1, 2, 3])
     (lastState (run E0 [configCommand setup0 0] init0))))"

text \<open>A concrete run: three transactions of sixty bytes each reach a tracer whose request-size
  ceiling is one hundred bytes.\<close>

definition threeBlocks0 :: "(bool \<times> bytes) loop_state" where
  "threeBlocks0 = lastState (run E0 [configCommand setup0 0,
     event (transactionEvent (replicate 60 1)), event (transactionEvent (replicate 60 2)),
     event (transactionEvent (replicate 60 3))] init0)"

lemma zfeed_append: "zfeed Z (xs @ ys) zb = zfeed Z ys (zfeed Z xs zb)"
  by (induction xs arbitrary: zb) (simp_all split: prod.splits)

lemma chunks_Nil [simp]: "chunks [] = []"
  by (simp add: chunks_def)

lemma chunks_Cons: "chunks (b # bs) = [Data b, newline] @ chunks bs"
  by (simp add: chunks_def)

lemma zlibWrite_zfeed:
  "(zlibWriter (zlibWrite E d s), requestBuf (zlibWrite E d s)) =
     zfeed (zl E) [d] (zlibWriter s, requestBuf s)"
  by (simp add: zlibWrite_def split: prod.splits)

lemma pullMetrics_zfeed:
  "(zlibWriter (pullMetrics E b mb s), requestBuf (pullMetrics E b mb s)) =
     zfeed (zl E) [Data b, newline] (zlibWriter s, requestBuf s)"
  by (simp add: pullMetrics_def Let_def zlibWrite_def split: prod.splits)

lemma pullTrace_zfeed:
  "(zlibWriter (pullTrace E b tb s), requestBuf (pullTrace E b tb s)) =
     zfeed (zl E) [Data b, newline] (zlibWriter s, requestBuf s)"
  by (cases "Tag b") (simp_all add: pullTrace_def Let_def zlibWrite_def split: prod.splits)

lemma pullMetrics_more:
  "closeRequest (pullMetrics E b mb s) = (closeRequest s \<or> sentMetrics s \<noteq> None)"
  "requestBufMetricsets (pullMetrics E b mb s) = requestBufMetricsets s + 1"
  by (simp_all add: pullMetrics_def Let_def)

lemma pullTrace_more:
  "requestBufTransactions (pullTrace E b tb s) =
     requestBufTransactions s + countOf transactionBlockTag [b]"
  "requestBufSpans (pullTrace E b tb s) = requestBufSpans s + countOf spanBlockTag [b]"
  "requestBufErrors (pullTrace E b tb s) = requestBufErrors s + countOf errorBlockTag [b]"
  by (cases "Tag b"; simp add: pullTrace_def Let_def countOf_def)+

lemma countOf_Cons: "countOf t (b # bs) = countOf t [b] + countOf t bs"
  by (simp add: countOf_def)

lemma sizeAfter_Nil: "sizeAfter E s [] = requestLen s"
  by (simp add: sizeAfter_def chunks_def requestLen_def)

lemma sizeAfter_pullMetrics:
  "sizeAfter E s (b # bs) = sizeAfter E (pullMetrics E b mb s) bs"
  unfolding sizeAfter_def chunks_Cons zfeed_append pullMetrics_zfeed by simp

lemma sizeAfter_pullTrace:
  "sizeAfter E s (b # bs) = sizeAfter E (pullTrace E b tb s) bs"
  unfolding sizeAfter_def chunks_Cons zfeed_append pullTrace_zfeed by simp

lemma all_less_Cons:
  "(\<forall>k < length (b # bs). P (take k (b # bs))) \<longleftrightarrow>
     P [] \<and> (\<forall>k < length bs. P (b # take k bs))"
proof
  assume a: "\<forall>k < length (b # bs). P (take k (b # bs))"
  from a [rule_format, of 0] have "P []" by simp
  moreover have "\<forall>k < length bs. P (b # take k bs)"
  proof (intro allI impI)
    fix k assume "k < length bs"
    with a [rule_format, of "Suc k"] show "P (b # take k bs)" by simp
  qed
  ultimately show "P [] \<and> (\<forall>k < length bs. P (b # take k bs))" ..
next
  assume a: "P [] \<and> (\<forall>k < length bs. P (b # take k bs))"
  show "\<forall>k < length (b # bs). P (take k (b # bs))"
  proof (intro allI impI)
    fix k assume "k < length (b # bs)"
    with a show "P (take k (b # bs))" by (cases k) simp_all
  qed
qed


lemma chunks_feed_Cons:
  "zfeed Z (chunks (b # bs)) zb = zfeed Z (chunks bs) (zfeed Z [Data b, newline] zb)"
  by (simp only: chunks_Cons zfeed_append)

lemma pulledD:
  assumes "pulled E s s' ms ts"
  shows "blocks (metricsBuffer s) = ms @ blocks (metricsBuffer s')"
    and "blocks (buffer s) = ts @ blocks (buffer s')"
    and "ts = [] \<or> rb_Len (metricsBuffer s') = 0"
    and "ms = [] \<or> rb_Len (metricsBuffer s) > 0"
    and "(zlibWriter s', requestBuf s') =
           zfeed (zl E) (chunks (ms @ ts)) (zlibWriter s, requestBuf s)"
    and "requestBytesRead s' = requestBytesRead s"
    and "\<forall>k < length (ms @ ts). sizeAfter E s (take k (ms @ ts)) < requestSize (cfg s)"
    and "requestSize (cfg s) \<le> requestLen s' \<or>
           rb_Len (metricsBuffer s') = 0 \<and> rb_Len (buffer s') = 0"
    and "closeRequest s' = (closeRequest s \<or> ms \<noteq> [] \<and> sentMetrics s \<noteq> None)"
    and "requestBufMetricsets s' = requestBufMetricsets s + of_nat (length ms)"
    and "requestBufTransactions s' = requestBufTransactions s + countOf transactionBlockTag ts"
    and "requestBufSpans s' = requestBufSpans s + countOf spanBlockTag ts"
    and "requestBufErrors s' = requestBufErrors s + countOf errorBlockTag ts"
  using assms unfolding pulled_def by simp_all

lemma pulled_metrics_step:
  assumes p: "pulled E (pullMetrics E b mb s) s' ms ts"
    and lt: "requestLen s < requestSize (cfg s)"
    and lt0: "rb_Len (metricsBuffer s) > 0"
    and bl: "blocks (metricsBuffer s) = b # blocks mb"
  shows "pulled E s s' (b # ms) ts"
proof -
  let ?q = "pullMetrics E b mb s"
  note c = pulledD [OF p]
  have d1: "blocks (metricsBuffer s) = (b # ms) @ blocks (metricsBuffer s')"
    using c(1) bl by simp
  have d2: "blocks (buffer s) = ts @ blocks (buffer s')"
    using c(2) by simp
  have d3: "b # ms = [] \<or> rb_Len (metricsBuffer s) > 0"
    using lt0 by simp
  have d4: "(zlibWriter s', requestBuf s') =
           zfeed (zl E) (chunks ((b # ms) @ ts)) (zlibWriter s, requestBuf s)"
    using c(5) by (simp only: append_Cons chunks_feed_Cons pullMetrics_zfeed)
  have d5: "requestBytesRead s' = requestBytesRead s"
    using c(6) by simp
  have d6: "\<forall>k < length ((b # ms) @ ts).
              sizeAfter E s (take k ((b # ms) @ ts)) < requestSize (cfg s)"
    unfolding append_Cons
      all_less_Cons [where P = "\<lambda>bs. sizeAfter E s bs < requestSize (cfg s)"]
    using c(7) lt by (simp add: sizeAfter_Nil sizeAfter_pullMetrics [of E s b _ mb])
  have d7: "requestSize (cfg s) \<le> requestLen s' \<or>
           rb_Len (metricsBuffer s') = 0 \<and> rb_Len (buffer s') = 0"
    using c(8) by simp
  have d8: "closeRequest s' = (closeRequest s \<or> b # ms \<noteq> [] \<and> sentMetrics s \<noteq> None)"
    using c(9) by (auto simp: pullMetrics_more)
  have d9: "requestBufMetricsets s' = requestBufMetricsets s + of_nat (length (b # ms))"
    using c(10) by (simp add: pullMetrics_more)
  have d10: "requestBufTransactions s' = requestBufTransactions s + countOf transactionBlockTag ts"
    "requestBufSpans s' = requestBufSpans s + countOf spanBlockTag ts"
    "requestBufErrors s' = requestBufErrors s + countOf errorBlockTag ts"
    using c(11,12,13) by simp_all
  show ?thesis
    unfolding pulled_def by (intro conjI d1 d2 c(3) d3 d4 d5 d6 d7 d8 d9 d10)
qed


lemma pulled_trace_step:
  assumes p: "pulled E (pullTrace E b tb s) s' ms ts"
    and lt: "requestLen s < requestSize (cfg s)"
    and m0: "rb_Len (metricsBuffer s) = 0"
    and bl: "blocks (buffer s) = b # blocks tb"
  shows "pulled E s s' [] (b # ts)"
proof -
  let ?q = "pullTrace E b tb s"
  note c = pulledD [OF p]
  have ms: "ms = []"
    using c(4) m0 by simp
  have d1: "blocks (metricsBuffer s) = [] @ blocks (metricsBuffer s')"
    using c(1) ms by simp
  have d2: "blocks (buffer s) = (b # ts) @ blocks (buffer s')"
    using c(2) bl by simp
  have d3: "b # ts = [] \<or> rb_Len (metricsBuffer s') = 0"
    using d1 m0 by (simp add: rb_Len_def)
  have d3': "[] = [] \<or> rb_Len (metricsBuffer s) > 0"
    by simp
  have d4: "(zlibWriter s', requestBuf s') =
           zfeed (zl E) (chunks ([] @ b # ts)) (zlibWriter s, requestBuf s)"
    using c(5) unfolding ms by (simp only: append_Nil chunks_feed_Cons pullTrace_zfeed)
  have d5: "requestBytesRead s' = requestBytesRead s"
    using c(6) by simp
  have d6: "\<forall>k < length ([] @ b # ts).
              sizeAfter E s (take k ([] @ b # ts)) < requestSize (cfg s)"
    unfolding append_Nil
      all_less_Cons [where P = "\<lambda>bs. sizeAfter E s bs < requestSize (cfg s)"]
    using c(7) lt unfolding ms by (simp add: sizeAfter_Nil sizeAfter_pullTrace [of E s b _ tb])
  have d7: "requestSize (cfg s) \<le> requestLen s' \<or>
           rb_Len (metricsBuffer s') = 0 \<and> rb_Len (buffer s') = 0"
    using c(8) by simp
  have d8: "closeRequest s' = (closeRequest s \<or> [] \<noteq> [] \<and> sentMetrics s \<noteq> None)"
    using c(9) ms by simp
  have d9: "requestBufMetricsets s' = requestBufMetricsets s + of_nat (length ([] :: block list))"
    using c(10) ms by simp
  have d10: "requestBufTransactions s' =
      requestBufTransactions s + countOf transactionBlockTag (b # ts)"
    "requestBufSpans s' = requestBufSpans s + countOf spanBlockTag (b # ts)"
    "requestBufErrors s' = requestBufErrors s + countOf errorBlockTag (b # ts)"
    using c(11,12,13) by (simp_all add: pullTrace_more countOf_Cons [of _ b ts])
  show ?thesis
    unfolding pulled_def by (intro conjI d1 d2 d3 d3' d4 d5 d6 d7 d8 d9 d10)
qed

lemma pulled_Nil:
  "\<not> requestLen s < requestSize (cfg s) \<or>
     rb_Len (metricsBuffer s) = 0 \<and> rb_Len (buffer s) = 0 \<Longrightarrow> pulled E s s [] []"
  unfolding pulled_def by (simp add: countOf_def) linarith

lemma stream_for_pulled: "\<exists>ms ts. pulled E s (stream_for E s) ms ts"
proof (induction s rule: stream_for_induct [where E = E])
  case (stop s)
  from pulled_Nil [OF stop(2), of E] show ?case
    unfolding stop(1) by blast
next
  case (pullm s b mb)
  from pullm(5) obtain ms ts where p: "pulled E (pullMetrics E b mb s) (stream_for E s) ms ts"
    unfolding pullm(4) by blast
  from pullm(3) have bl: "blocks (metricsBuffer s) = b # blocks mb"
    by (simp add: rb_WriteBlockTo_Some)
  from pulled_metrics_step [OF p pullm(1) pullm(2) bl] show ?case by blast
next
  case (pullt s b tb)
  from pullt(6) obtain ms ts where p: "pulled E (pullTrace E b tb s) (stream_for E s) ms ts"
    unfolding pullt(5) by blast
  from pullt(4) have bl: "blocks (buffer s) = b # blocks tb"
    by (simp add: rb_WriteBlockTo_Some)
  from pulled_trace_step [OF p pullt(1) pullt(2) bl] show ?case by blast
qed


lemma pulled_requestLen:
  assumes "pulled E s s' ms ts"
  shows "requestLen s' = sizeAfter E s (ms @ ts)"
proof -
  note c = pulledD [OF assms]
  from c(5) have "requestBuf s' = snd (zfeed (zl E) (chunks (ms @ ts)) (zlibWriter s, requestBuf s))"
    by (metis snd_conv)
  with c(6) show ?thesis by (simp add: requestLen_def sizeAfter_def)
qed

text \<open>Claim C2, as amended: in the streaming step the loop pulls the oldest block of the
  metrics buffer, or of the trace buffer once the metrics buffer reports no bytes, and writes it
  with a newline to the compressor, as long as the quantity
  \<open>requestBytesRead + requestBuf.Len()\<close> is below \<open>cfg.requestSize\<close>; it stops when that quantity
  has reached the ceiling or both buffers report no bytes. The quantity is the number of bytes
  the compressor has emitted for the request so far (compressed bytes), whatever the size of the
  data written to it. A request not yet marked for closing is marked exactly when that quantity
  has reached the ceiling, or when a metrics block was pulled while a \<open>SendMetrics\<close>
  acknowledgment is pending.\<close>

theorem streaming_compares_compressed_size:
  "\<exists>ms ts. pulled E s (stream_for E s) ms ts \<and>
     requestLen (stream_for E s) = sizeAfter E s (ms @ ts) \<and>
     streamBlocks E s =
       (if \<not> closeRequest s \<or> \<not> zlibClosed s
        then (stream_for E s)\<lparr>closeRequest :=
               (closeRequest s \<or> ms \<noteq> [] \<and> sentMetrics s \<noteq> None \<or>
                requestSize (cfg s) \<le> requestLen (stream_for E s))\<rparr>
        else s)"
proof -
  from stream_for_pulled obtain ms ts where p: "pulled E s (stream_for E s) ms ts"
    by blast
  note c = pulledD [OF p]
  have cf: "cfg (stream_for E s) = cfg s"
    by (simp add: stream_for_frame)
  have "streamBlocks E s =
       (if \<not> closeRequest s \<or> \<not> zlibClosed s
        then (stream_for E s)\<lparr>closeRequest :=
               (closeRequest s \<or> ms \<noteq> [] \<and> sentMetrics s \<noteq> None \<or>
                requestSize (cfg s) \<le> requestLen (stream_for E s))\<rparr>
        else s)"
  proof (cases "closeRequest (stream_for E s)")
    case True
    with c(9) have e: "(closeRequest s \<or> ms \<noteq> [] \<and> sentMetrics s \<noteq> None \<or>
        requestSize (cfg s) \<le> requestLen (stream_for E s)) = closeRequest (stream_for E s)"
      by auto
    show ?thesis
      unfolding e using True by (simp add: streamBlocks_def Let_def)
  next
    case False
    with c(9) have e: "(closeRequest s \<or> ms \<noteq> [] \<and> sentMetrics s \<noteq> None \<or>
        requestSize (cfg s) \<le> requestLen (stream_for E s)) =
        (requestSize (cfg s) \<le> requestLen (stream_for E s))"
      by auto
    show ?thesis
      unfolding e using False by (simp add: streamBlocks_def Let_def cf)
  qed
  with p pulled_requestLen [OF p] show ?thesis by blast
qed

theorem streaming_compares_compressed_size_witness:
  "\<exists>ms ts. pulled E0 streaming0 (stream_for E0 streaming0) ms ts \<and>
     ms = [] \<and> ts = [\<lparr>Tag = transactionBlockTag, Data = [1, 2, 3]\<rparr>, \<lparr>Tag = spanBlockTag, Data = [4, 5]\<rparr>] \<and>
     requestLen (stream_for E0 streaming0) = 2 \<and>
     \<not> closeRequest (streamBlocks E0 streaming0)"
proof -
  from streaming_compares_compressed_size [of E0 streaming0] obtain ms ts where
    p: "pulled E0 streaming0 (stream_for E0 streaming0) ms ts"
    by blast
  note c = pulledD [OF p]
  have v: "blocks (metricsBuffer streaming0) = []"
    "blocks (buffer streaming0) =
       [\<lparr>Tag = transactionBlockTag, Data = [1, 2, 3]\<rparr>, \<lparr>Tag = spanBlockTag, Data = [4, 5]\<rparr>]"
    "blocks (buffer (stream_for E0 streaming0)) = []"
    "requestLen (stream_for E0 streaming0) = 2"
    "\<not> closeRequest (streamBlocks E0 streaming0)"
    by code_simp+
  from c(1) v(1) have "ms = []" by simp
  moreover from c(2) v(2,3) have
    "ts = [\<lparr>Tag = transactionBlockTag, Data = [1, 2, 3]\<rparr>, \<lparr>Tag = spanBlockTag, Data = [4, 5]\<rparr>]"
    by simp
  ultimately show ?thesis using p v(4,5) by blast
qed

text \<open>Claim C2, as stated, fails: the compared quantity is not the uncompressed size. With a
  ceiling of 100 bytes, three blocks of 60 bytes are pulled into one request: 186 bytes have
  been written to the compressor (the ceiling was passed with the second block), the compressor
  has emitted only its two header bytes, the compared quantity is 2, and the request is not
  marked for closing.\<close>

theorem streaming_ignores_uncompressed_size:
  "requestSize (cfg threeBlocks0) = 100 \<and>
   requestBufTransactions threeBlocks0 = 3 \<and>
   length (snd (zlibWriter threeBlocks0)) = 186 \<and>
   requestLen threeBlocks0 = 2 \<and>
   requestActive threeBlocks0 \<and> \<not> closeRequest threeBlocks0 \<and>
   rb_Len (buffer threeBlocks0) = 0"
  by code_simp


text \<open>A state of a concrete run: the tracer is configured, a transaction has opened a request
  and has been streamed into it.\<close>

definition requestOpen0 :: "(bool \<times> bytes) loop_state" where
  "requestOpen0 = lastState (run E0 [configCommand setup0 0, event (transactionEvent [1, 2, 3])] init0)"

lemma writeMetrics_frame [simp]:
  "gracePeriod (writeMetrics ms s) = gracePeriod s" "stats (writeMetrics ms s) = stats s"
  "t_stats (writeMetrics ms s) = t_stats s"
  "effects (writeMetrics ms s) = effects s" "cfg (writeMetrics ms s) = cfg s"
  "sentMetrics (writeMetrics ms s) = sentMetrics s" "flushed (writeMetrics ms s) = flushed s" "flushedFull (writeMetrics ms s) = flushedFull s"
  "requestActive (writeMetrics ms s) = requestActive s"
  "gatheringMetrics (writeMetrics ms s) = gatheringMetrics s"
  "gatherMetrics (writeMetrics ms s) = gatherMetrics s"
  "buffer (writeMetrics ms s) = buffer s"
  "closeRequest (writeMetrics ms s) = closeRequest s"
  by (induction ms arbitrary: s; simp)+

lemma stream_for_closeRequest: "closeRequest s \<Longrightarrow> closeRequest (stream_for E s)"
  by (induction s rule: stream_for_induct [where E = E]) (simp_all add: pullMetrics_more)

lemma streamBlocks_closeRequest: "closeRequest s \<Longrightarrow> closeRequest (streamBlocks E s)"
  by (simp add: streamBlocks_def Let_def stream_for_closeRequest)

lemma closeOrFlush_closeRequest [simp]: "closeRequest (closeOrFlush E s) = closeRequest s"
  by (simp add: closeOrFlush_def split: prod.splits)

lemma respond_closeRequest [simp]: "closeRequest (respond s) = closeRequest s"
  by (simp add: respond_def Let_def split: option.splits)

lemma misc_closeRequest [simp]:
  "closeRequest (openRequest E s) = closeRequest s"
  "closeRequest (startGather s) = closeRequest s"
  "closeRequest (accumulateStats s) = closeRequest s"
  "closeRequest (caseConfigCommand cmd now s) = closeRequest s"
  by (simp_all add: openRequest_def Let_def zlibWrite_def startGather_def accumulateStats_def
      caseConfigCommand_def split: prod.splits option.splits)

lemma loopRest_closeRequest: "closeRequest s \<Longrightarrow> closeRequest (loopRest E s)"
  by (simp add: loopRest_def Let_def streamBlocks_closeRequest)

text \<open>Whether the rest of the loop body opens a request: it does when none is active and a
  buffer reports bytes, and then it signals the send goroutine with the current grace period.\<close>

definition opens :: "'z loop_state \<Rightarrow> bool" where
  "opens s \<longleftrightarrow> \<not> requestActive s \<and> (rb_Len (buffer s) \<noteq> 0 \<or> rb_Len (metricsBuffer s) \<noteq> 0)"

lemma loopRest_requestActive:
  "requestActive (loopRest E s) = (requestActive s \<or> opens s)"
  by (auto simp: loopRest_def Let_def opens_def)

lemma loopRest_signals:
  "signalsOf (effects (loopRest E s)) =
     signalsOf (effects s) @ (if opens s then [gracePeriod s] else [])"
  by (auto simp: loopRest_def Let_def opens_def)

text \<open>The cases that neither carry a flush request, nor a send result, nor end the loop.\<close>

fun quiet :: "selectCase \<Rightarrow> bool" where
  "quiet closing = False"
| "quiet (forceFlush c evs) = False"
| "quiet (requestResult r) = False"
| "quiet c = True"

text \<open>The effects of all the iterations of a run, in order.\<close>

fun runEffects :: "'z env \<Rightarrow> selectCase list \<Rightarrow> 'z loop_state \<Rightarrow> effect list" where
  "runEffects E [] s = []"
| "runEffects E (c # cs) s =
     (case loop_iter E c s of
        Continue s1 \<Rightarrow> effects s1 @ runEffects E cs s1
      | Return s1 \<Rightarrow> effects s1
      | Next s1 \<Rightarrow> effects s1
      | Blocked s1 \<Rightarrow> effects s1)"

lemma writeBlock_frame [simp]:
  "gracePeriod (writeBlock t d s) = gracePeriod s" "t_stats (writeBlock t d s) = t_stats s"
  "effects (writeBlock t d s) = effects s" "cfg (writeBlock t d s) = cfg s"
  "sentMetrics (writeBlock t d s) = sentMetrics s" "flushed (writeBlock t d s) = flushed s" "flushedFull (writeBlock t d s) = flushedFull s"
  "requestActive (writeBlock t d s) = requestActive s"
  "gatheringMetrics (writeBlock t d s) = gatheringMetrics s"
  "gatherMetrics (writeBlock t d s) = gatherMetrics s"
  "metricsBuffer (writeBlock t d s) = metricsBuffer s"
  "closeRequest (writeBlock t d s) = closeRequest s"
  "flushRequest (writeBlock t d s) = flushRequest s"
  "sentZero (stats (writeBlock t d s)) = sentZero (stats s)"
  by (simp_all add: writeBlock_def foldl_Evicted_sentZero split: prod.splits)

lemma caseEvent_eq:
  "caseEvent e s =
     (case e of errorEvent d \<Rightarrow> (writeEvent e s)\<lparr>flushRequest := True\<rparr> | _ \<Rightarrow> writeEvent e s)"
  by (cases e) simp_all

lemma caseEvent_frame [simp]:
  "flushed (caseEvent e s) = flushed s" "flushedFull (caseEvent e s) = flushedFull s" "requestActive (caseEvent e s) = requestActive s"
  "closeRequest (caseEvent e s) = closeRequest s" "effects (caseEvent e s) = effects s"
  "gracePeriod (caseEvent e s) = gracePeriod s" "sentMetrics (caseEvent e s) = sentMetrics s"
  "gatheringMetrics (caseEvent e s) = gatheringMetrics s"
  "gatherMetrics (caseEvent e s) = gatherMetrics s" "t_stats (caseEvent e s) = t_stats s"
  "cfg (caseEvent e s) = cfg s"
  by (simp_all add: caseEvent_eq split: tracerEvent.splits)

lemma simple_cases_frame [simp]:
  "flushed (caseRequestTimer s) = flushed s" "flushedFull (caseRequestTimer s) = flushedFull s" "requestActive (caseRequestTimer s) = requestActive s"
  "closeRequest (caseRequestTimer s)" "effects (caseRequestTimer s) = effects s"
  "gracePeriod (caseRequestTimer s) = gracePeriod s"
  "flushed (caseMetricsTimer s) = flushed s" "flushedFull (caseMetricsTimer s) = flushedFull s" "requestActive (caseMetricsTimer s) = requestActive s"
  "closeRequest (caseMetricsTimer s) = closeRequest s" "effects (caseMetricsTimer s) = effects s"
  "gracePeriod (caseMetricsTimer s) = gracePeriod s"
  "flushed (caseIochanReq n s) = flushed s" "flushedFull (caseIochanReq n s) = flushedFull s" "requestActive (caseIochanReq n s) = requestActive s"
  "closeRequest (caseIochanReq n s) = closeRequest s" "effects (caseIochanReq n s) = effects s"
  "gracePeriod (caseIochanReq n s) = gracePeriod s"
  by (simp_all add: caseRequestTimer_def caseMetricsTimer_def caseIochanReq_def)

lemma caseForceSendMetrics_frame [simp]:
  "flushed (caseForceSendMetrics c s) = flushed s" "flushedFull (caseForceSendMetrics c s) = flushedFull s"
  "requestActive (caseForceSendMetrics c s) = requestActive s"
  "closeRequest (caseForceSendMetrics c s) = closeRequest s"
  "gracePeriod (caseForceSendMetrics c s) = gracePeriod s"
  "flushAcksOf (effects (caseForceSendMetrics c s)) = flushAcksOf (effects s)"
  "signalsOf (effects (caseForceSendMetrics c s)) = signalsOf (effects s)"
  "gathersOf (effects (caseForceSendMetrics c s)) = gathersOf (effects s)"
  by (simp_all add: caseForceSendMetrics_def Let_def)

lemma caseGatheredMetrics_frame [simp]:
  "flushed (caseGatheredMetrics ms now s) = flushed s" "flushedFull (caseGatheredMetrics ms now s) = flushedFull s"
  "requestActive (caseGatheredMetrics ms now s) = requestActive s"
  "closeRequest (caseGatheredMetrics ms now s) = closeRequest s"
  "gracePeriod (caseGatheredMetrics ms now s) = gracePeriod s"
  "flushAcksOf (effects (caseGatheredMetrics ms now s)) = flushAcksOf (effects s)"
  "signalsOf (effects (caseGatheredMetrics ms now s)) = signalsOf (effects s)"
  "gathersOf (effects (caseGatheredMetrics ms now s)) = gathersOf (effects s)"
  by (simp_all add: caseGatheredMetrics_def Let_def)

lemma quiet_step:
  assumes "quiet c"
  shows "\<exists>s'. loop_iter E c s = Continue s' \<and> flushed s' = flushed s \<and>
           flushedFull s' = flushedFull s \<and> flushAcksOf (effects s') = [] \<and>
           (requestActive s \<longrightarrow> requestActive s') \<and> (closeRequest s \<longrightarrow> closeRequest s')"
  using assms
  by (cases c)
     (simp_all add: loop_iter_def loopRest_frame loopRest_requestActive loopRest_closeRequest)


lemma quiet_run:
  assumes "\<forall>c \<in> set cs. quiet c"
  shows "isContinue (run E cs s) \<and> flushed (lastState (run E cs s)) = flushed s \<and>
           flushedFull (lastState (run E cs s)) = flushedFull s \<and>
           flushAcksOf (runEffects E cs s) = [] \<and>
           (requestActive s \<longrightarrow> requestActive (lastState (run E cs s))) \<and>
           (closeRequest s \<longrightarrow> closeRequest (lastState (run E cs s)))"
  using assms
proof (induction cs arbitrary: s)
  case Nil
  then show ?case by simp
next
  case (Cons c cs)
  from Cons.prems have q: "quiet c" and qs: "\<forall>c \<in> set cs. quiet c"
    by simp_all
  from quiet_step [OF q, of E s] obtain s1 where
    s1: "loop_iter E c s = Continue s1" "flushed s1 = flushed s" "flushedFull s1 = flushedFull s"
      "flushAcksOf (effects s1) = []"
      "requestActive s \<longrightarrow> requestActive s1" "closeRequest s \<longrightarrow> closeRequest s1"
    by blast
  from Cons.IH [OF qs, of s1] s1 show ?case
    by simp
qed

lemma run_append:
  "isContinue (run E cs s) \<Longrightarrow> run E (cs @ ds) s = run E ds (lastState (run E cs s))"
  by (induction cs arbitrary: s) (auto split: flow.splits)

lemma runEffects_append:
  "isContinue (run E cs s) \<Longrightarrow>
   runEffects E (cs @ ds) s = runEffects E cs s @ runEffects E ds (lastState (run E cs s))"
  by (induction cs arbitrary: s) (auto split: flow.splits)

text \<open>The condition under which a forced flush is answered at once: after the queued events
  have been written, no request is active and both buffers report no bytes.\<close>

definition nothingToFlush :: "tracerEvent list \<Rightarrow> 'z loop_state \<Rightarrow> bool" where
  "nothingToFlush evs s \<longleftrightarrow>
     \<not> requestActive s \<and> rb_Len (buffer (fold writeEvent evs s)) = 0 \<and>
     rb_Len (metricsBuffer s) = 0"

lemma writeEvent_buffer_cong:
  "buffer a = buffer b \<Longrightarrow> buffer (writeEvent e a) = buffer (writeEvent e b)"
  by (cases e) (simp_all add: writeBlock_def split: prod.splits)

lemma fold_writeEvent_buffer_cong:
  "buffer a = buffer b \<Longrightarrow> buffer (fold writeEvent evs a) = buffer (fold writeEvent evs b)"
proof (induction evs arbitrary: a b)
  case Nil
  then show ?case by simp
next
  case (Cons e es)
  from Cons.prems have "buffer (writeEvent e a) = buffer (writeEvent e b)"
    by (rule writeEvent_buffer_cong)
  then have "buffer (fold writeEvent es (writeEvent e a)) = buffer (fold writeEvent es (writeEvent e b))"
    by (rule Cons.IH)
  then show ?case by simp
qed

lemma forceFlush_immediate:
  assumes "nothingToFlush evs s"
  shows "\<exists>s'. loop_iter E (forceFlush ch evs) s = Continue s' \<and> effects s' = [AckFlushed ch]"
proof -
  let ?s0 = "s\<lparr>gatherMetrics := False, effects := []\<rparr>"
  have b: "buffer (fold writeEvent evs (?s0\<lparr>flushed := Some ch, flushedFull := False\<rparr>)) =
             buffer (fold writeEvent evs s)"
    by (rule fold_writeEvent_buffer_cong) simp
  from assms show ?thesis
    by (simp add: loop_iter_def caseForceFlush_def Let_def nothingToFlush_def b)
qed

lemma forceFlush_pending:
  assumes "\<not> nothingToFlush evs s"
  shows "\<exists>s'. loop_iter E (forceFlush ch evs) s = Continue s' \<and> flushAcksOf (effects s') = [] \<and>
           flushed s' = Some ch \<and> \<not> flushedFull s' \<and> closeRequest s' \<and> requestActive s'"
proof -
  let ?s0 = "s\<lparr>gatherMetrics := False, effects := []\<rparr>"
  let ?s1 = "fold writeEvent evs (?s0\<lparr>flushed := Some ch, flushedFull := False\<rparr>)"
  have b: "buffer ?s1 = buffer (fold writeEvent evs s)"
    by (rule fold_writeEvent_buffer_cong) simp
  from assms have n: "\<not> (\<not> requestActive ?s1 \<and> rb_Len (buffer ?s1) = 0 \<and> rb_Len (metricsBuffer ?s1) = 0)"
    by (simp add: nothingToFlush_def b)
  then have o: "requestActive ?s1 \<or> opens (?s1\<lparr>closeRequest := True\<rparr>)"
    by (auto simp: opens_def)
  have e: "loop_iter E (forceFlush ch evs) s = Continue (loopRest E (?s1\<lparr>closeRequest := True\<rparr>))"
    using n by (auto simp: loop_iter_def caseForceFlush_def Let_def)
  show ?thesis
    unfolding e using o
    by (auto simp: loopRest_frame loopRest_requestActive loopRest_closeRequest)
qed


lemma requestResult_flush_ack:
  "\<not> flushBlocked s \<Longrightarrow> \<exists>s'. loop_iter E (requestResult r) s = Continue s' \<and>
     flushAcksOf (effects s') = (case flushed s of Some c \<Rightarrow> [c] | None \<Rightarrow> [])"
  by (simp add: loop_iter_requestResult loopRest_frame resultDone_def resultBlocked_def
      flushAcked_acks)

section \<open>Forced flush (claim C4)\<close>

text \<open>Claim C4, as amended: when the loop services a call to \<open>Flush\<close>, it first writes the
  events queued in the ingestion channel; if then no request is active and both buffers report
  no bytes, it delivers the acknowledgment in that iteration. Otherwise it marks the request
  for closing (opening one first when none is active) and keeps the acknowledgment channel;
  no acknowledgment is delivered in the iterations that follow, and the acknowledgment is
  delivered in the iteration that receives the next send result, on success and on failure
  alike. (The iterations in between are those that service neither another \<open>Flush\<close> call nor
  the shutdown signal.)\<close>

theorem flush_acknowledged:
  assumes "\<forall>c \<in> set cs. quiet c"
  shows "if nothingToFlush evs s
         then flushAcksOf (runEffects E [forceFlush ch evs] s) = [ch]
         else flushAcksOf (runEffects E (forceFlush ch evs # cs) s) = [] \<and>
              isContinue (run E (forceFlush ch evs # cs) s) \<and>
              requestActive (lastState (run E (forceFlush ch evs # cs) s)) \<and>
              closeRequest (lastState (run E (forceFlush ch evs # cs) s)) \<and>
              flushAcksOf (runEffects E (forceFlush ch evs # cs @ [requestResult r]) s) = [ch]"
proof (cases "nothingToFlush evs s")
  case True
  from forceFlush_immediate [OF True, of E ch] show ?thesis
    using True by auto
next
  case False
  from forceFlush_pending [OF False, of E ch] obtain s1 where
    s1: "loop_iter E (forceFlush ch evs) s = Continue s1" "flushAcksOf (effects s1) = []"
      "flushed s1 = Some ch" "closeRequest s1" "requestActive s1" "\<not> flushedFull s1"
    by blast
  from quiet_run [OF assms, of E s1] s1 have
    q: "isContinue (run E cs s1)" "flushed (lastState (run E cs s1)) = Some ch"
      "flushAcksOf (runEffects E cs s1) = []" "requestActive (lastState (run E cs s1))"
      "closeRequest (lastState (run E cs s1))"
    and nb: "\<not> flushBlocked (lastState (run E cs s1))"
    by (simp_all add: flushBlocked_def)
  from requestResult_flush_ack [OF nb, of E r] q(2) obtain s2 where
    s2: "loop_iter E (requestResult r) (lastState (run E cs s1)) = Continue s2"
      "flushAcksOf (effects s2) = [ch]"
    by auto
  have a: "flushAcksOf (runEffects E (cs @ [requestResult r]) s1) = [ch]"
    using q(1,3) s2 by (simp add: runEffects_append)
  show ?thesis
    using False s1 q a by simp
qed

theorem flush_acknowledged_witness:
  "nothingToFlush [] init0 \<and>
   flushAcksOf (runEffects E0 [forceFlush 7 []] init0) = [7] \<and>
   \<not> nothingToFlush [] requestOpen0 \<and>
   flushAcksOf (runEffects E0 [forceFlush 7 [], iochanReq 100, requestTimerC] requestOpen0) = [] \<and>
   flushAcksOf (runEffects E0 [forceFlush 7 [], iochanReq 100, requestTimerC, requestResult None]
     requestOpen0) = [7]"
proof -
  have q: "\<forall>c \<in> set [iochanReq 100, requestTimerC]. quiet c" "\<forall>c \<in> set []. quiet c"
    by simp_all
  have n: "nothingToFlush [] init0" "\<not> nothingToFlush [] requestOpen0"
    by code_simp+
  from flush_acknowledged [OF q(2), of "[]" init0 E0 7 None]
    flush_acknowledged [OF q(1), of "[]" requestOpen0 E0 7 None] n
  show ?thesis by simp
qed

text \<open>Claim C4, as stated, ties the acknowledgment to the request reaching the completed
  state. In this run a transaction is queued when \<open>Flush\<close> is called, the request that takes it
  fails, and the acknowledgment is delivered all the same: the transaction is neither sent nor
  buffered any more.\<close>

theorem flush_acknowledged_on_failure:
  "flushAcksOf (runEffects E0 [configCommand setup0 0, forceFlush 7 [transactionEvent [1, 2, 3]],
      iochanReq 100, requestResult (Some OtherError)] init0) = [7] \<and>
   TransactionsSent (t_stats (lastState (run E0 [configCommand setup0 0,
      forceFlush 7 [transactionEvent [1, 2, 3]], iochanReq 100,
      requestResult (Some OtherError)] init0))) = 0 \<and>
   Errors_SendStream (t_stats (lastState (run E0 [configCommand setup0 0,
      forceFlush 7 [transactionEvent [1, 2, 3]], iochanReq 100,
      requestResult (Some OtherError)] init0))) = 1 \<and>
   blocks (buffer (lastState (run E0 [configCommand setup0 0,
      forceFlush 7 [transactionEvent [1, 2, 3]], iochanReq 100,
      requestResult (Some OtherError)] init0))) = []"
  by code_simp


section \<open>The loop and the send goroutine together\<close>

text \<open>Where the send goroutine stands: waiting for a value on \<open>sendStreamRequest\<close>, waiting out
  the jittered grace period, inside \<open>Transport.SendStream\<close>, or finished (the channel is closed).\<close>

datatype senderPc = AwaitRequest | Delaying duration | InSendStream | SenderDone

text \<open>The loop's variables, whether the loop has returned, the send goroutine, and the content
  of the channel \<open>requestResult\<close> (capacity one).\<close>

record 'z system =
  loopSt :: "'z loop_state"
  loopExited :: bool
  sender :: senderPc
  requestResultCh :: "sendError option option"

text \<open>The constant \<open>gracePeriodJitter = 0.1\<close>, as the fraction 1/10.\<close>

definition gracePeriodJitter :: "int \<times> int" where
  "gracePeriodJitter = (1, 10)"

text \<open>Modelled from the spec: \<open>jitterDuration\<close> is not among the source files. Section 4.4 speaks
  of a "\<plusminus>10% random jitter applied at send time": the result differs from the duration by at
  most the given fraction of it. The random choice is left open, and the arithmetic is exact.\<close>

definition jitterDuration :: "duration \<Rightarrow> int \<times> int \<Rightarrow> duration \<Rightarrow> bool" where
  "jitterDuration d j d' \<longleftrightarrow> snd j * \<bar>d' - d\<bar> \<le> d * fst j"

text \<open>What the send goroutine does with a received grace period: it waits only if the period
  is positive.\<close>

definition startSend :: "duration \<Rightarrow> senderPc \<Rightarrow> bool" where
  "startSend gp pc \<longleftrightarrow>
     (if gp > 0 then (case pc of Delaying d \<Rightarrow> jitterDuration gp gracePeriodJitter d | _ \<Rightarrow> False)
      else pc = InSendStream)"

fun isResult :: "selectCase \<Rightarrow> bool" where
  "isResult (requestResult r) = True"
| "isResult c = False"

text \<open>Whether the \<open>select\<close> statement can take a case: a send result only when the channel
  holds it. (All other cases are left to the environment; the shutdown case has its own step.)
  An iteration that never ends is no step: the loop stays where it is. The last step is that
  of a caller of \<open>Flush\<close> receiving the acknowledgment from its channel.\<close>

fun selectable :: "'z system \<Rightarrow> selectCase \<Rightarrow> bool" where
  "selectable g (requestResult r) = (requestResultCh g = Some r)"
| "selectable g closing = False"
| "selectable g c = True"

definition received :: "'z system \<Rightarrow> selectCase \<Rightarrow> sendError option option" where
  "received g c = (if isResult c then None else requestResultCh g)"

inductive sys_step :: "'z env \<Rightarrow> 'z system \<Rightarrow> 'z system \<Rightarrow> bool" for E :: "'z env" where
  loop_iteration:
    "\<not> loopExited g \<Longrightarrow> selectable g c \<Longrightarrow> loop_iter E c (loopSt g) = Continue s' \<Longrightarrow>
     signalsOf (effects s') = [] \<Longrightarrow>
     sys_step E g (g\<lparr>loopSt := s', requestResultCh := received g c\<rparr>)"
| loop_signals:
    "\<not> loopExited g \<Longrightarrow> selectable g c \<Longrightarrow> loop_iter E c (loopSt g) = Continue s' \<Longrightarrow>
     signalsOf (effects s') = [gp] \<Longrightarrow> sender g = AwaitRequest \<Longrightarrow> startSend gp pc \<Longrightarrow>
     sys_step E g (g\<lparr>loopSt := s', requestResultCh := received g c, sender := pc\<rparr>)"
| loop_returns:
    "\<not> loopExited g \<Longrightarrow> loop_iter E closing (loopSt g) = Return s' \<Longrightarrow>
     sys_step E g (g\<lparr>loopSt := s', loopExited := True\<rparr>)"
| delay_over:
    "sender g = Delaying d \<Longrightarrow> sys_step E g (g\<lparr>sender := InSendStream\<rparr>)"
| send_returns:
    "sender g = InSendStream \<Longrightarrow> requestResultCh g = None \<Longrightarrow>
     sys_step E g (g\<lparr>sender := AwaitRequest, requestResultCh := Some r\<rparr>)"
| sender_exits:
    "sender g = AwaitRequest \<Longrightarrow> loopExited g \<Longrightarrow> sys_step E g (g\<lparr>sender := SenderDone\<rparr>)"
| flush_received:
    "flushedFull (loopSt g) \<Longrightarrow>
     sys_step E g (g\<lparr>loopSt := (loopSt g)\<lparr>flushedFull := False\<rparr>\<rparr>)"

definition sys_init :: "'z env \<Rightarrow> nat \<Rightarrow> nat \<Rightarrow> 'z system" where
  "sys_init E bufferSize metricsBufferSize =
     \<lparr>loopSt = loop_init E bufferSize metricsBufferSize zeroStats, loopExited = False,
      sender = AwaitRequest, requestResultCh = None\<rparr>"

inductive_set sysStates :: "'z env \<Rightarrow> 'z system set" for E :: "'z env" where
  start: "sys_init E bufferSize metricsBufferSize \<in> sysStates E"
| step: "g \<in> sysStates E \<Longrightarrow> sys_step E g g' \<Longrightarrow> g' \<in> sysStates E"

fun busy :: "senderPc \<Rightarrow> bool" where
  "busy (Delaying d) = True"
| "busy InSendStream = True"
| "busy pc = False"

text \<open>The sends that have been requested and whose result the loop has not yet received: the
  one the send goroutine is working on, and the one whose result waits in the channel.\<close>

definition outstanding :: "'z system \<Rightarrow> nat" where
  "outstanding g = (if busy (sender g) then 1 else 0) + (if requestResultCh g \<noteq> None then 1 else 0)"

text \<open>A concrete state of the two together: the tracer is configured, a transaction has opened
  a request, and the send goroutine is inside \<open>SendStream\<close>.\<close>

definition sending0 :: "(bool \<times> bytes) system" where
  "sending0 = \<lparr>loopSt = requestOpen0, loopExited = False, sender = InSendStream,
                 requestResultCh = None\<rparr>"

definition configured0 :: "(bool \<times> bytes) system" where
  "configured0 = \<lparr>loopSt = lastState (run E0 [configCommand setup0 0] init0), loopExited = False,
                    sender = AwaitRequest, requestResultCh = None\<rparr>"

lemma lastState_selectBody_signals:
  "effects s = [] \<Longrightarrow> signalsOf (effects (lastState (selectBody E c s))) = []"
  by (cases c)
     (simp_all add: caseClosing_def caseForceFlush_def Let_def caseRequestResult_eq
        resultDone_def resultBlocked_def)

lemma afterSelect_signals: "signalsOf (effects (afterSelect E c s)) = []"
  unfolding afterSelect_def by (rule lastState_selectBody_signals) simp

lemma resultBlocked_requestActive [simp]:
  "requestActive (resultBlocked E r s) = requestActive s"
  by (simp add: resultBlocked_def resultOutcome_def Let_def ackSentMetrics_def
      split: option.splits)

lemma lastState_selectBody_requestActive:
  "requestActive (lastState (selectBody E c s)) =
     (if isResult c \<and> \<not> flushBlocked s then False else requestActive s)"
  by (cases c)
     (simp_all add: caseClosing_def caseForceFlush_def Let_def caseRequestResult_eq
        resultDone_def resetRequest_idle)

lemma afterSelect_requestActive:
  "requestActive (afterSelect E c s) =
     (if isResult c \<and> \<not> flushBlocked s then False else requestActive s)"
  unfolding afterSelect_def by (simp add: lastState_selectBody_requestActive)

lemma loop_iter_Continue_notBlocked:
  "loop_iter E c s = Continue s' \<Longrightarrow> isResult c \<Longrightarrow> \<not> flushBlocked s"
  by (cases c) (auto simp: loop_iter_def caseRequestResult_eq split: if_splits)

lemma loop_iter_cases:
  assumes "loop_iter E c s = Continue s'"
  shows "s' = afterSelect E c s \<or> s' = loopRest E (afterSelect E c s)"
  using assms unfolding loop_iter_def afterSelect_def
  by (cases "selectBody E c (s\<lparr>gatherMetrics := False, effects := []\<rparr>)") auto

lemma loop_iter_signals:
  assumes "loop_iter E c s = Continue s'"
  shows "signalsOf (effects s') =
           (if requestActive s' \<and> \<not> requestActive (afterSelect E c s) then [gracePeriod s'] else [])"
  using loop_iter_cases [OF assms]
  by (auto simp: afterSelect_signals loopRest_signals loopRest_requestActive opens_def
      loopRest_frame)

lemma loop_iter_requestActive:
  assumes "loop_iter E c s = Continue s'" "requestActive s" "\<not> isResult c"
  shows "requestActive s'"
  using loop_iter_cases [OF assms(1)] assms(2,3)
  by (auto simp: afterSelect_requestActive loopRest_requestActive)


lemma loop_iter_keeps_active:
  assumes "loop_iter E c s = Continue s'" "requestActive (afterSelect E c s)"
  shows "requestActive s'"
  using loop_iter_cases [OF assms(1)] assms(2)
  by (auto simp: loopRest_requestActive)

lemma loop_iter_closing:
  "loop_iter E closing s = Return s' \<Longrightarrow> requestActive s' = requestActive s"
  by (auto simp: loop_iter_def caseClosing_def)

lemma startSend_busy: "startSend gp pc \<Longrightarrow> busy pc"
  by (cases pc) (auto simp: startSend_def split: if_splits)

definition oneInFlight :: "'z system \<Rightarrow> bool" where
  "oneInFlight g \<longleftrightarrow>
     (requestActive (loopSt g) \<longleftrightarrow> busy (sender g) \<or> requestResultCh g \<noteq> None) \<and>
     \<not> (busy (sender g) \<and> requestResultCh g \<noteq> None)"

lemma selectable_result: "selectable g c \<Longrightarrow> isResult c \<Longrightarrow> requestResultCh g \<noteq> None"
  by (cases c) simp_all

lemma sys_step_oneInFlight:
  assumes "sys_step E g g'" "oneInFlight g"
  shows "oneInFlight g'"
  using assms
proof (cases rule: sys_step.cases)
  case (loop_iteration c s')
  from loop_iter_signals [OF loop_iteration(4)] loop_iteration(5)
  have a: "requestActive s' \<longrightarrow> requestActive (afterSelect E c (loopSt g))"
    by (auto split: if_splits)
  with loop_iter_keeps_active [OF loop_iteration(4)]
  have b: "requestActive s' = requestActive (afterSelect E c (loopSt g))"
    by blast
  show ?thesis
  proof (cases "isResult c")
    case True
    with selectable_result [OF loop_iteration(3)] assms(2)
      loop_iter_Continue_notBlocked [OF loop_iteration(4)] show ?thesis
      unfolding loop_iteration(1) oneInFlight_def
      by (auto simp: b afterSelect_requestActive received_def)
  next
    case False
    with assms(2) show ?thesis
      unfolding loop_iteration(1) oneInFlight_def
      by (auto simp: b afterSelect_requestActive received_def)
  qed
next
  case (loop_signals c s' gp pc)
  from loop_iter_signals [OF loop_signals(4)] loop_signals(5)
  have a: "requestActive s'" "\<not> requestActive (afterSelect E c (loopSt g))"
    by (auto split: if_splits)
  note bp = startSend_busy [OF loop_signals(7)]
  show ?thesis
  proof (cases "isResult c")
    case True
    with a bp show ?thesis
      unfolding loop_signals(1) oneInFlight_def by (simp add: received_def)
  next
    case False
    with a bp assms(2) show ?thesis
      unfolding loop_signals(1) oneInFlight_def
      by (auto simp: afterSelect_requestActive received_def)
  qed
next
  case (loop_returns s')
  with assms(2) loop_iter_closing [OF loop_returns(3)] show ?thesis
    by (simp add: oneInFlight_def)
next
  case (delay_over d)
  with assms(2) show ?thesis by (simp add: oneInFlight_def)
next
  case (send_returns r)
  with assms(2) show ?thesis by (simp add: oneInFlight_def)
next
  case sender_exits
  with assms(2) show ?thesis by (simp add: oneInFlight_def)
next
  case flush_received
  with assms(2) show ?thesis by (simp add: oneInFlight_def)
qed

lemma sysStates_oneInFlight: "g \<in> sysStates E \<Longrightarrow> oneInFlight g"
proof (induction rule: sysStates.induct)
  case (start bufferSize metricsBufferSize)
  show ?case by (simp add: oneInFlight_def sys_init_def loop_init_def)
next
  case (step g g')
  then show ?case by (blast intro: sys_step_oneInFlight)
qed

lemma sysStates_senderDone: "g \<in> sysStates E \<Longrightarrow> sender g = SenderDone \<Longrightarrow> loopExited g"
proof (induction rule: sysStates.induct)
  case (start bufferSize metricsBufferSize)
  then show ?case by (simp add: sys_init_def)
next
  case (step g g')
  from step(2) step(3,4) show ?case
    by (cases rule: sys_step.cases) (auto simp: startSend_def split: if_splits senderPc.splits)
qed

section \<open>One send at a time (claim C1)\<close>

text \<open>Claim C1: in every state that the loop and the send goroutine reach together, under any
  interleaving of the cases of the \<open>select\<close> statement with the steps of the send goroutine, at
  most one send is outstanding, and one is outstanding exactly when \<open>requestActive\<close> is set. An
  iteration signals the send goroutine at most once, only when \<open>requestActive\<close> is false after
  the \<open>select\<close> statement, and it leaves \<open>requestActive\<close> set; the send goroutine is then waiting
  for the signal, so the loop does not block on it. An iteration that starts with
  \<open>requestActive\<close> set leaves it set unless it receives the result of the send.\<close>

theorem single_request_in_flight:
  assumes "g \<in> sysStates E"
  shows "outstanding g \<le> 1 \<and> (outstanding g = 1 \<longleftrightarrow> requestActive (loopSt g)) \<and>
     (\<forall>c s'. \<not> loopExited g \<and> selectable g c \<and>
         loop_iter E c (loopSt g) = Continue s' \<and> signalsOf (effects s') \<noteq> [] \<longrightarrow>
         signalsOf (effects s') = [gracePeriod s'] \<and>
         \<not> requestActive (afterSelect E c (loopSt g)) \<and> requestActive s' \<and>
         sender g = AwaitRequest \<and> received g c = None) \<and>
     (\<forall>c s'. loop_iter E c (loopSt g) = Continue s' \<and> requestActive (loopSt g) \<and>
         \<not> isResult c \<longrightarrow> requestActive s')"
proof -
  from assms have inv: "oneInFlight g" by (rule sysStates_oneInFlight)
  have o: "outstanding g \<le> 1 \<and> (outstanding g = 1 \<longleftrightarrow> requestActive (loopSt g))"
    using inv by (auto simp: oneInFlight_def outstanding_def)
  have sig: "signalsOf (effects s') = [gracePeriod s'] \<and>
         \<not> requestActive (afterSelect E c (loopSt g)) \<and> requestActive s' \<and>
         sender g = AwaitRequest \<and> received g c = None"
    if h: "selectable g c" "loop_iter E c (loopSt g) = Continue s'" "signalsOf (effects s') \<noteq> []"
      and ne: "\<not> loopExited g"
    for c s'
  proof -
    from loop_iter_signals [OF h(2)] h(3)
    have a: "signalsOf (effects s') = [gracePeriod s']" "requestActive s'"
      "\<not> requestActive (afterSelect E c (loopSt g))"
      by (auto split: if_splits)
    have "\<not> busy (sender g) \<and> received g c = None"
    proof (cases "isResult c")
      case True
      with selectable_result [OF h(1)] inv show ?thesis
        by (auto simp: oneInFlight_def received_def)
    next
      case False
      with a(3) inv show ?thesis
        by (auto simp: oneInFlight_def received_def afterSelect_requestActive)
    qed
    moreover have "sender g \<noteq> SenderDone"
      using sysStates_senderDone [OF assms] ne by blast
    ultimately show ?thesis using a by (cases "sender g") auto
  qed
  have keep: "requestActive s'"
    if "loop_iter E c (loopSt g) = Continue s'" "requestActive (loopSt g)" "\<not> isResult c" for c s'
    using that by (rule loop_iter_requestActive)
  from o sig keep show ?thesis by blast
qed


lemma configured0_reached: "configured0 \<in> sysStates E0"
proof -
  let ?g = "sys_init E0 64 64"
  have g: "?g \<in> sysStates E0" by (rule sysStates.start)
  have e: "loop_iter E0 (configCommand setup0 0) (loopSt ?g) = Continue (loopSt configured0)"
    "signalsOf (effects (loopSt configured0)) = []"
    by code_simp+
  have "sys_step E0 ?g (?g\<lparr>loopSt := loopSt configured0,
      requestResultCh := received ?g (configCommand setup0 0)\<rparr>)"
    by (rule sys_step.loop_iteration [OF _ _ e]) (simp_all add: sys_init_def)
  moreover have "?g\<lparr>loopSt := loopSt configured0,
      requestResultCh := received ?g (configCommand setup0 0)\<rparr> = configured0"
    by (simp add: sys_init_def configured0_def received_def)
  ultimately show ?thesis using g by (metis sysStates.step)
qed

lemma sending0_reached: "sending0 \<in> sysStates E0"
proof -
  let ?c = "event (transactionEvent [1, 2, 3])"
  have e: "loop_iter E0 ?c (loopSt configured0) = Continue requestOpen0"
    "signalsOf (effects requestOpen0) = [- 1]"
    by code_simp+
  have "sys_step E0 configured0 (configured0\<lparr>loopSt := requestOpen0,
      requestResultCh := received configured0 ?c, sender := InSendStream\<rparr>)"
    by (rule sys_step.loop_signals [OF _ _ e]) (simp_all add: configured0_def startSend_def)
  moreover have "configured0\<lparr>loopSt := requestOpen0,
      requestResultCh := received configured0 ?c, sender := InSendStream\<rparr> = sending0"
    by (simp add: sending0_def configured0_def received_def)
  ultimately show ?thesis using configured0_reached by (metis sysStates.step)
qed

theorem single_request_in_flight_witness:
  "sending0 \<in> sysStates E0 \<and> outstanding sending0 = 1 \<and> requestActive (loopSt sending0) \<and>
   configured0 \<in> sysStates E0 \<and> outstanding configured0 = 0 \<and>
   \<not> requestActive (loopSt configured0) \<and>
   loop_iter E0 (event (transactionEvent [1, 2, 3])) (loopSt configured0) = Continue requestOpen0 \<and>
   signalsOf (effects requestOpen0) = [- 1] \<and> requestActive requestOpen0 \<and>
   sender configured0 = AwaitRequest"
proof -
  let ?c = "event (transactionEvent [1, 2, 3])"
  have e: "loop_iter E0 ?c (loopSt configured0) = Continue requestOpen0"
    "signalsOf (effects requestOpen0) = [- 1]"
    by code_simp+
  have o: "outstanding sending0 = 1" "outstanding configured0 = 0"
    by (simp_all add: outstanding_def sending0_def configured0_def)
  have sel: "\<not> loopExited configured0" "selectable configured0 ?c"
    by (simp_all add: configured0_def)
  from single_request_in_flight [OF sending0_reached] o(1)
  have a: "requestActive (loopSt sending0)" by simp
  from single_request_in_flight [OF configured0_reached] o(2)
  have b: "\<not> requestActive (loopSt configured0)" by simp
  from single_request_in_flight [OF configured0_reached] sel e
  have c: "requestActive requestOpen0 \<and> sender configured0 = AwaitRequest"
    by (metis list.distinct(1))
  from a b c o e sending0_reached configured0_reached show ?thesis by simp
qed






















section \<open>The grace period (claim C3)\<close>





section \<open>The tracer and its lifecycle methods\<close>

text \<open>The part of \<open>Tracer\<close> that the lifecycle methods touch: the \<open>active\<close> flag, whether the
  channels \<open>closing\<close> and \<open>closed\<close> have been closed, the variables of the loop goroutine while
  one runs (\<open>None\<close> when no loop goroutine runs; the shared statistics \<open>t.stats\<close> are then in
  \<open>tStats\<close>, and in the loop's \<open>t_stats\<close> while it runs).\<close>

record 'z tracer =
  tActive :: bool
  tClosing :: bool
  tClosed :: bool
  tLoop :: "'z loop_state option"
  tStats :: TracerStats

text \<open>The fields of \<open>options\<close> that \<open>newTracer\<close> hands to the loop, and \<open>apmlog.DefaultLogger\<close>.\<close>

record options =
  opt_requestDuration :: duration
  opt_metricsInterval :: duration
  opt_requestSize :: int
  opt_bufferSize :: nat
  opt_metricsBufferSize :: nat
  opt_sanitizedFieldNames :: "string list"
  opt_disabledMetrics :: "string list"
  opt_active :: bool
  opt_defaultLogger :: "nat option"
  opt_builtinGatherer :: nat

definition defaultPreContext :: int where
  "defaultPreContext = 3"

definition defaultPostContext :: int where
  "defaultPostContext = 3"

text \<open>The first configuration command, sent by \<open>newTracer\<close> to the new loop.\<close>

definition initialConfig :: "options \<Rightarrow> tracerConfig \<Rightarrow> tracerConfig" where
  "initialConfig opts c =
     (let c1 = c\<lparr>metricsInterval := opt_metricsInterval opts,
                  requestDuration := opt_requestDuration opts,
                  requestSize := opt_requestSize opts,
                  sanitizedFieldNames := opt_sanitizedFieldNames opts,
                  disabledMetrics := opt_disabledMetrics opts,
                  preContext := defaultPreContext, postContext := defaultPostContext,
                  metricsGatherers := [opt_builtinGatherer opts]\<rparr>
      in if opt_defaultLogger opts \<noteq> None then c1\<lparr>logger := opt_defaultLogger opts\<rparr> else c1)"

text \<open>\<open>newTracer\<close>: an inactive tracer gets its \<open>closed\<close> channel closed and no loop; an active
  one gets a loop, which receives the first configuration command (at the given clock reading)
  before \<open>newTracer\<close> returns.\<close>

definition newTracer :: "'z env \<Rightarrow> options \<Rightarrow> time \<Rightarrow> 'z tracer" where
  "newTracer E opts now =
     (if \<not> opt_active opts
      then \<lparr>tActive = False, tClosing = False, tClosed = True, tLoop = None, tStats = zeroStats\<rparr>
      else \<lparr>tActive = True, tClosing = False, tClosed = False,
            tLoop = Some (lastState (loop_iter E (configCommand (initialConfig opts) now)
                      (loop_init E (opt_bufferSize opts) (opt_metricsBufferSize opts) zeroStats))),
            tStats = zeroStats\<rparr>)"

definition Active :: "'z tracer \<Rightarrow> bool" where
  "Active t = tActive t"

definition Stats :: "'z tracer \<Rightarrow> TracerStats" where
  "Stats t = (case tLoop t of Some s \<Rightarrow> t_stats s | None \<Rightarrow> tStats t)"

text \<open>The loop servicing the shutdown signal: possible once \<open>closing\<close> is closed. The deferred
  calls clear \<open>active\<close> and close \<open>closed\<close>.\<close>

definition loopShutdown :: "'z env \<Rightarrow> 'z tracer \<Rightarrow> 'z tracer option" where
  "loopShutdown E t =
     (case tLoop t of
        Some s \<Rightarrow>
          if tClosing t
          then Some (t\<lparr>tActive := False, tClosed := True, tLoop := None,
                        tStats := t_stats (lastState (loop_iter E closing s))\<rparr>)
          else None
      | None \<Rightarrow> None)"

text \<open>\<open>Close\<close>, statement by statement. A caller is before the \<open>select\<close>, has taken its
  \<open>default\<close> branch and is about to close \<open>closing\<close>, waits to receive from \<open>closed\<close>, has
  returned, or has panicked (closing a closed channel panics). A step is \<open>None\<close> when the caller
  is blocked or has finished.\<close>

datatype closePc = CloseSelect | CloseDefault | CloseWait | CloseReturned | ClosePanicked

fun closeStep :: "'z tracer \<Rightarrow> closePc \<Rightarrow> ('z tracer \<times> closePc) option" where
  "closeStep t CloseSelect = Some (t, if tClosing t then CloseWait else CloseDefault)"
| "closeStep t CloseDefault =
     (if tClosing t then Some (t, ClosePanicked) else Some (t\<lparr>tClosing := True\<rparr>, CloseWait))"
| "closeStep t CloseWait = (if tClosed t then Some (t, CloseReturned) else None)"
| "closeStep t CloseReturned = None"
| "closeStep t ClosePanicked = None"

text \<open>Two callers of \<open>Close\<close> and the loop, interleaved: a schedule names who moves next.\<close>

datatype mover = First | Second | Loop

fun closeRace :: "'z env \<Rightarrow> mover list \<Rightarrow> 'z tracer \<times> closePc \<times> closePc \<Rightarrow>
    'z tracer \<times> closePc \<times> closePc" where
  "closeRace E [] g = g"
| "closeRace E (First # ms) (t, p, q) =
     (case closeStep t p of Some (t', p') \<Rightarrow> closeRace E ms (t', p', q)
      | None \<Rightarrow> closeRace E ms (t, p, q))"
| "closeRace E (Second # ms) (t, p, q) =
     (case closeStep t q of Some (t', q') \<Rightarrow> closeRace E ms (t', p, q')
      | None \<Rightarrow> closeRace E ms (t, p, q))"
| "closeRace E (Loop # ms) (t, p, q) =
     (case loopShutdown E t of Some t' \<Rightarrow> closeRace E ms (t', p, q)
      | None \<Rightarrow> closeRace E ms (t, p, q))"

text \<open>A call running alone, with no other goroutine moving in between: it returns, it blocks
  (the caller waits for another goroutine), it panics, or its request is handed to the loop
  goroutine (and what follows is the loop's business).\<close>

datatype 'a outcome = Returns 'a | Blocks | Panics | ToLoop

definition Close :: "'z tracer \<Rightarrow> 'z tracer outcome" where
  "Close t =
     (case closeStep t CloseSelect of
        Some (t1, CloseWait) \<Rightarrow> if tClosed t1 then Returns t1 else Blocks
      | Some (t1, p) \<Rightarrow>
          (case closeStep t1 p of
             Some (t2, CloseWait) \<Rightarrow> if tClosed t2 then Returns t2 else Blocks
           | _ \<Rightarrow> Panics)
      | None \<Rightarrow> Blocks)"

text \<open>The \<open>select\<close> statements of \<open>Flush\<close>, \<open>SendMetrics\<close> and \<open>sendConfigCommand\<close>: the cases that
  are ready. A send on one of the loop's unbuffered channels is ready only if a loop goroutine
  is there to receive; a receive from a closed channel is ready. With no case ready the caller
  blocks; a ready case other than the hand-over to the loop makes the method return at once,
  with nothing changed.\<close>

datatype ready = HandedToLoop | ClosingClosed | ClosedClosed

definition selected :: "'z tracer \<Rightarrow> ready list \<Rightarrow> 'z tracer outcome" where
  "selected t rs =
     (if rs = [] then Blocks else if HandedToLoop \<in> set rs then ToLoop else Returns t)"

definition Flush :: "'z tracer \<Rightarrow> 'z tracer outcome" where
  "Flush t = selected t ((if tLoop t \<noteq> None then [HandedToLoop] else []) @
                         (if tClosed t then [ClosedClosed] else []))"

definition SendMetrics :: "'z tracer \<Rightarrow> 'z tracer outcome" where
  "SendMetrics t = selected t ((if tLoop t \<noteq> None then [HandedToLoop] else []) @
                               (if tClosed t then [ClosedClosed] else []))"

definition sendConfigCommand :: "'z tracer \<Rightarrow> 'z tracer outcome" where
  "sendConfigCommand t = selected t ((if tLoop t \<noteq> None then [HandedToLoop] else []) @
                                     (if tClosing t then [ClosingClosed] else []) @
                                     (if tClosed t then [ClosedClosed] else []))"

text \<open>Method calls made one after the other.\<close>

datatype call = CallClose | CallFlush | CallSendMetrics | CallStats | CallConfig

fun callOn :: "'z tracer \<Rightarrow> call \<Rightarrow> 'z tracer outcome" where
  "callOn t CallClose = Close t"
| "callOn t CallFlush = Flush t"
| "callOn t CallSendMetrics = SendMetrics t"
| "callOn t CallStats = Returns t"
| "callOn t CallConfig = sendConfigCommand t"

fun callsOn :: "'z tracer \<Rightarrow> call list \<Rightarrow> 'z tracer outcome" where
  "callsOn t [] = Returns t"
| "callsOn t (c # cs) =
     (case callOn t c of Returns t' \<Rightarrow> callsOn t' cs | Blocks \<Rightarrow> Blocks | Panics \<Rightarrow> Panics
      | ToLoop \<Rightarrow> ToLoop)"

definition inactiveOptions :: options where
  "inactiveOptions = \<lparr>opt_requestDuration = 10, opt_metricsInterval = 30, opt_requestSize = 100,
     opt_bufferSize = 64, opt_metricsBufferSize = 64, opt_sanitizedFieldNames = [],
     opt_disabledMetrics = [], opt_active = False, opt_defaultLogger = None,
     opt_builtinGatherer = 0\<rparr>"

definition activeOptions :: options where
  "activeOptions = inactiveOptions\<lparr>opt_active := True\<rparr>"

lemma inactive_callOn:
  assumes "tLoop t = None" "tClosed t" "\<not> tActive t"
  shows "\<exists>t'. callOn t c = Returns t' \<and> tLoop t' = None \<and> tClosed t' \<and> \<not> tActive t' \<and>
           tStats t' = tStats t"
  using assms
  by (cases c)
     (auto simp: Close_def Flush_def SendMetrics_def sendConfigCommand_def selected_def)

lemma inactive_callsOn:
  assumes "tLoop t = None" "tClosed t" "\<not> tActive t"
  shows "\<exists>t'. callsOn t cs = Returns t' \<and> tLoop t' = None \<and> tClosed t' \<and> \<not> tActive t' \<and>
           tStats t' = tStats t"
  using assms
proof (induction cs arbitrary: t)
  case Nil
  then show ?case by simp
next
  case (Cons c cs)
  from inactive_callOn [OF Cons.prems, of c] obtain t1 where
    t1: "callOn t c = Returns t1" "tLoop t1 = None" "tClosed t1" "\<not> tActive t1"
      "tStats t1 = tStats t"
    by blast
  from Cons.IH [OF t1(2,3,4)] t1(1,5) show ?case by auto
qed

section \<open>The inactive tracer (claim C10)\<close>

text \<open>Claim C10 holds for calls made one after the other: a tracer constructed inactive has its
  \<open>closed\<close> channel closed and no loop goroutine, so \<open>Active\<close> is false; and whatever sequence of
  calls to \<open>Close\<close>, \<open>Flush\<close>, \<open>SendMetrics\<close>, \<open>Stats\<close> and the configuration setters follows,
  each starting after the one before has returned, every call returns without blocking, there
  is still no loop (hence no buffer and no request state to affect), the tracer stays inactive
  and its statistics stay zero.\<close>

theorem inactive_tracer_calls_return:
  assumes "\<not> opt_active opts"
  shows "\<not> Active (newTracer E opts now) \<and> tClosed (newTracer E opts now) \<and>
         tLoop (newTracer E opts now) = None \<and>
         (\<exists>t'. callsOn (newTracer E opts now) cs = Returns t' \<and> tLoop t' = None \<and>
                \<not> Active t' \<and> Stats t' = zeroStats)"
proof -
  let ?t = "newTracer E opts now"
  have i: "tLoop ?t = None" "tClosed ?t" "\<not> tActive ?t" "tStats ?t = zeroStats"
    using assms by (simp_all add: newTracer_def)
  from inactive_callsOn [OF i(1,2,3), of cs] i show ?thesis
    by (auto simp: Active_def Stats_def)
qed

theorem inactive_tracer_calls_return_witness:
  "\<not> opt_active inactiveOptions \<and> \<not> Active (newTracer E0 inactiveOptions 0) \<and>
   (\<exists>t'. callsOn (newTracer E0 inactiveOptions 0)
      [CallFlush, CallConfig, CallClose, CallSendMetrics, CallClose, CallStats] = Returns t' \<and>
      tLoop t' = None \<and> \<not> Active t' \<and> Stats t' = zeroStats)"
proof -
  have a: "\<not> opt_active inactiveOptions"
    by (simp add: inactiveOptions_def)
  from inactive_tracer_calls_return [OF a, of E0 0] a show ?thesis
    by blast
qed

text \<open>Claim C10 fails for calls of \<open>Close\<close> that overlap: \<open>newTracer\<close> closes \<open>closed\<close> but leaves
  \<open>closing\<close> open on an inactive tracer, so two goroutines calling \<open>Close\<close> can both evaluate
  the \<open>select\<close> statement before either closes \<open>closing\<close>; both take the \<open>default\<close> branch, and
  the second \<open>close(t.closing)\<close> panics instead of returning.\<close>

theorem inactive_concurrent_close_panics:
  "\<not> Active (newTracer E0 inactiveOptions 0) \<and> tClosed (newTracer E0 inactiveOptions 0) \<and>
   \<not> tClosing (newTracer E0 inactiveOptions 0) \<and>
   snd (closeRace E0 [First, Second, First, Second]
     (newTracer E0 inactiveOptions 0, CloseSelect, CloseSelect)) = (CloseWait, ClosePanicked)"
  by code_simp


section \<open>Closing the tracer (claim C6)\<close>

text \<open>Claim C6 holds for calls of \<open>Close\<close> that do not overlap: a call running alone never
  panics, it returns only once \<open>closed\<close> is closed (which the loop does when it returns), and a
  caller that finds \<open>closing\<close> already closed leaves it alone and waits like the first. The loop
  servicing the shutdown signal cancels the send context, closes the read side of the stream
  in flight with \<open>io.EOF\<close> and returns, whatever the state of the request.\<close>

theorem close_alone_and_shutdown:
  "Close t \<noteq> Panics \<and> Close t \<noteq> ToLoop \<and>
   (case Close t of Returns t' \<Rightarrow> tClosing t' \<and> tClosed t' \<and> tClosed t | _ \<Rightarrow> \<not> tClosed t) \<and>
   (if tClosing t then closeStep t CloseSelect = Some (t, CloseWait)
    else closeStep t CloseSelect = Some (t, CloseDefault)) \<and>
   (closeStep t CloseWait = None) = (\<not> tClosed t) \<and>
   loop_iter E closing s =
     Return (s\<lparr>gatherMetrics := False, effects := [CancelContext, CloseRead]\<rparr>)"
  by (auto simp: Close_def loop_iter_def caseClosing_def emit_def)

text \<open>Claim C6 fails for overlapping calls: two goroutines call \<open>Close\<close> on an active tracer, both
  evaluate the \<open>select\<close> statement before either closes \<open>closing\<close>, both take the \<open>default\<close> branch,
  and the second \<open>close(t.closing)\<close> panics.\<close>

theorem concurrent_close_panics:
  "snd (closeRace E0 [First, Second, First, Second]
     (newTracer E0 activeOptions 0, CloseSelect, CloseSelect)) = (CloseWait, ClosePanicked)"
  by code_simp

end
